theory Spec2Isabelle
  imports Main "HOL-Library.AList"
begin

section \<open>Data model of \<open>packages/expo-optimize/src/assets.ts\<close>\<close>

text \<open>
  A path and the content of a file are strings of bytes (\<open>char\<close> is a byte).
  \<open>AssetOptimizationState\<close> is the object \<open>{ [hash: string]: boolean }\<close> read from and
  written to \<open>.expo-shared/assets.json\<close>: an association list, looked up with
  \<open>map_of\<close>, assigned with \<open>AList.update\<close> and deleted from with \<open>AList.delete\<close>.
\<close>

type_synonym path = string
type_synonym bytes = string
type_synonym hash = string
type_synonym AssetOptimizationState = "(hash \<times> bool) list"

datatype error = IOError

text \<open>
  \<open>OptimizationOptions\<close>; the fields \<open>include\<close> and \<open>exclude\<close> are named \<open>includeGlob\<close> and
  \<open>excludeGlob\<close> here.
\<close>

record OptimizationOptions =
  quality :: "int option"
  includeGlob :: "string option"
  excludeGlob :: "string option"
  save :: "bool option"

text \<open>
  The world the program acts on. \<open>files\<close> is the file system, one entry per file,
  under the normalized form of its path (see \<open>readFile\<close> below). \<open>stateFile\<close> is the
  project's \<open>.expo-shared\<close> directory: \<open>None\<close> when the directory does not exist,
  \<open>Some None\<close> when it exists without \<open>assets.json\<close>,
  \<open>Some (Some s)\<close> when \<open>assets.json\<close> holds the object \<open>s\<close>. \<open>probes\<close> counts the
  calls of \<open>isAvailableAsync\<close> and \<open>sharpLog\<close> lists the input paths of the calls of
  \<open>sharpAsync\<close>, oldest first. The output of \<open>sharpAsync\<close> goes to a fresh temporary
  directory outside the project and is not an entry of \<open>files\<close>. \<open>pendingWrite\<close> is
  the object of a \<open>writeAsync\<close> of \<open>assets.json\<close> that has been started and not awaited:
  the file holds it only once that write has completed (\<open>settle\<close> below).
\<close>

record world =
  files :: "path \<rightharpoonup> bytes"
  stateFile :: "AssetOptimizationState option option"
  probes :: nat
  sharpLog :: "path list"
  pendingWrite :: "AssetOptimizationState option"

text \<open>
  What the module imports and does not define: the SHA-256 hex digest, the compressor
  \<open>sharpAsync\<close> (input path, input bytes and quality to output bytes), its availability
  probe (a function of the number of probes made before), \<open>glob.sync\<close> under the
  module's \<open>globOptions\<close> (a function of the file system and the pattern) and the
  \<open>assetBundlePatterns\<close> of the project's configuration.
\<close>

record env =
  sha256 :: "bytes \<Rightarrow> hash"
  sharp :: "path \<Rightarrow> bytes \<Rightarrow> int \<Rightarrow> bytes"
  isAvailable :: "nat \<Rightarrow> bool"
  globSync :: "(path \<rightharpoonup> bytes) \<Rightarrow> string \<Rightarrow> string list"
  assetBundlePatterns :: "string list option"

text \<open>JavaScript truthiness of an optional string and of an optional boolean.\<close>

definition truthyStr :: "string option \<Rightarrow> bool" where
  "truthyStr s = (case s of None \<Rightarrow> False | Some t \<Rightarrow> t \<noteq> [])"

definition truthyBool :: "bool option \<Rightarrow> bool" where
  "truthyBool b = (case b of None \<Rightarrow> False | Some t \<Rightarrow> t)"

section \<open>Strings and paths\<close>

text \<open>\<open>String.prototype.toLowerCase\<close> on the letters the extension test reads.\<close>

definition toLowerCaseChar :: "char \<Rightarrow> char" where
  "toLowerCaseChar c =
     (let n = (of_char c :: nat) in if 65 \<le> n \<and> n \<le> 90 then char_of (n + 32) else c)"

definition toLowerCase :: "string \<Rightarrow> string" where
  "toLowerCase s = map toLowerCaseChar s"

definition endsWith :: "string \<Rightarrow> string \<Rightarrow> bool" where
  "endsWith s t = (length t \<le> length s \<and> drop (length s - length t) s = t)"

text \<open>The regular expression \<open>/\.(png|jpg|jpeg)$/\<close> of \<open>filterImages\<close>.\<close>

definition regexTest :: "string \<Rightarrow> bool" where
  "regexTest s = (endsWith s ''.png'' \<or> endsWith s ''.jpg'' \<or> endsWith s ''.jpeg'')"

text \<open>\<open>s.replace('//', '/')\<close>: only the first occurrence is replaced.\<close>

fun replaceSlashes :: "string \<Rightarrow> string" where
  "replaceSlashes (a # b # cs) =
     (if a = CHR ''/'' \<and> b = CHR ''/'' then CHR ''/'' # cs else a # replaceSlashes (b # cs))"
| "replaceSlashes cs = cs"

text \<open>
  Node's POSIX \<open>path.parse\<close>, for the fields \<open>createNewFilename\<close> reads. Trailing
  slashes are skipped, \<open>base\<close> is what follows the last remaining slash, and the
  extension starts at the last dot of \<open>base\<close> unless that dot is its first character
  or \<open>base\<close> is \<open>..\<close>.
\<close>

record parsedPath =
  dir :: string
  name :: string
  ext :: string

definition isSlash :: "char \<Rightarrow> bool" where
  "isSlash c = (c = CHR ''/'')"

definition isDot :: "char \<Rightarrow> bool" where
  "isDot c = (c = CHR ''.'')"

definition parse :: "string \<Rightarrow> parsedPath" where
  "parse p =
     (let stripped = rev (dropWhile isSlash (rev p));
          base = rev (takeWhile (\<lambda>c. \<not> isSlash c) (rev stripped));
          pre = take (length stripped - length base) stripped;
          d = (if 2 \<le> length pre then butlast pre
               else if p \<noteq> [] \<and> isSlash (hd p) then ''/'' else []);
          e = rev (takeWhile (\<lambda>c. \<not> isDot c) (rev base));
          k = length base - length e - 1
      in if \<not> list_ex isDot base \<or> k = 0 \<or> base = ''..''
         then \<lparr>dir = d, name = base, ext = []\<rparr>
         else \<lparr>dir = d, name = take k base, ext = drop k base\<rparr>)"

text \<open>
  Node's POSIX \<open>path.normalize\<close> and \<open>path.join\<close> of two arguments: empty and \<open>.\<close>
  segments are dropped, \<open>..\<close> removes the segment before it (and is kept at the
  front of a relative path), a trailing slash is kept.
\<close>

fun splitSegments :: "string \<Rightarrow> string list" where
  "splitSegments [] = [[]]"
| "splitSegments (c # cs) =
     (if isSlash c then [] # splitSegments cs
      else (case splitSegments cs of [] \<Rightarrow> [[c]] | s # ss \<Rightarrow> (c # s) # ss))"

fun normalizeString :: "bool \<Rightarrow> string list \<Rightarrow> string list \<Rightarrow> string list" where
  "normalizeString allowAboveRoot res [] = rev res"
| "normalizeString allowAboveRoot res (s # ss) =
     (if s = [] \<or> s = ''.'' then normalizeString allowAboveRoot res ss
      else if s = ''..'' then
        (case res of
           t # ts \<Rightarrow>
             if t \<noteq> ''..'' then normalizeString allowAboveRoot ts ss
             else if allowAboveRoot then normalizeString allowAboveRoot (''..'' # res) ss
             else normalizeString allowAboveRoot res ss
         | [] \<Rightarrow>
             if allowAboveRoot then normalizeString allowAboveRoot [''..''] ss
             else normalizeString allowAboveRoot [] ss)
      else normalizeString allowAboveRoot (s # res) ss)"

fun joinSegments :: "string list \<Rightarrow> string" where
  "joinSegments [] = []"
| "joinSegments [s] = s"
| "joinSegments (s # t # ss) = s @ ''/'' @ joinSegments (t # ss)"

definition normalize :: "string \<Rightarrow> string" where
  "normalize p =
     (if p = [] then ''.''
      else
        (let isAbsolute = isSlash (hd p);
             trailingSeparator = isSlash (last p);
             q = joinSegments (normalizeString (\<not> isAbsolute) [] (splitSegments p))
         in if q = [] then (if isAbsolute then ''/'' else if trailingSeparator then ''./'' else ''.'')
            else (if isAbsolute then ''/'' else []) @ q @ (if trailingSeparator then ''/'' else [])))"

definition join :: "string \<Rightarrow> string \<Rightarrow> string" where
  "join a b =
     (if a = [] then (if b = [] then ''.'' else normalize b)
      else if b = [] then normalize a
      else normalize (a @ ''/'' @ b))"

text \<open>\<open>createNewFilename\<close>: add \<open>.orig\<close> before the extension of a path.\<close>

definition createNewFilename :: "path \<Rightarrow> path" where
  "createNewFilename imagePath =
     (let p = parse imagePath in join (dir p) (name p @ ''.orig'' @ ext p))"

section \<open>Selection of the asset files\<close>

text \<open>\<open>filterImages\<close>: prefix the project directory and keep the PNG and JPG files.\<close>

definition filterImages :: "string list \<Rightarrow> string \<Rightarrow> path list" where
  "filterImages fs projectDir =
     (let withDirectory = map (\<lambda>file. replaceSlashes (projectDir @ ''/'' @ file)) fs
      in filter (\<lambda>file. regexTest (toLowerCase file)) withDirectory)"

text \<open>
  \<open>getAssetFilesAsync\<close>. \<open>patterns\<close> defaults to \<open>**/*\<close> only when the configuration
  has no \<open>assetBundlePatterns\<close> (an empty array is truthy). With a truthy \<open>include\<close>
  the included files are the result of globbing that pattern, whatever \<open>allFiles\<close> is.
\<close>

definition discovered :: "env \<Rightarrow> world \<Rightarrow> string list" where
  "discovered E w =
     (let patterns = (case assetBundlePatterns E of None \<Rightarrow> [''**/*''] | Some ps \<Rightarrow> ps)
      in concat (map (globSync E (files w)) patterns))"

definition getAssetFilesAsync ::
  "env \<Rightarrow> world \<Rightarrow> string \<Rightarrow> OptimizationOptions \<Rightarrow> path list \<times> path list" where
  "getAssetFilesAsync E w projectDir options =
     (let allFiles = discovered E w;
          included = (if truthyStr (includeGlob options)
                      then globSync E (files w) (the (includeGlob options)) else allFiles);
          toExclude = (if truthyStr (excludeGlob options)
                       then set (globSync E (files w) (the (excludeGlob options))) else {});
          excluded = filter (\<lambda>file. file \<notin> toExclude) included;
          filtered = (if truthyStr (excludeGlob options) then excluded else included)
      in (filterImages allFiles projectDir, filterImages filtered projectDir))"

section \<open>The file system\<close>

text \<open>
  Two path strings name one file when \<open>path.normalize\<close> gives them the same string
  (\<open>./a.png\<close> and \<open>a.png\<close>, \<open>/p//a.png\<close> and \<open>/p/a.png\<close>), so every access to \<open>files\<close>
  goes through the normalized path: reading (\<open>readFileSync\<close>, \<open>statSync\<close>, the test of
  \<open>move\<close> for its destination), writing (the destination of \<open>move\<close>) and removing
  (the source of \<open>move\<close>, \<open>unlinkSync\<close>).
\<close>

definition readFile :: "world \<Rightarrow> path \<Rightarrow> bytes option" where
  "readFile w p = files w (normalize p)"

definition writeFile :: "path \<Rightarrow> bytes \<Rightarrow> world \<Rightarrow> world" where
  "writeFile p b w = w\<lparr>files := (files w)(normalize p \<mapsto> b)\<rparr>"

definition removeFile :: "path \<Rightarrow> world \<Rightarrow> world" where
  "removeFile p w = w\<lparr>files := (files w)(normalize p := None)\<rparr>"

section \<open>The state file and the content hash\<close>

definition ensureDirSync :: "world \<Rightarrow> world" where
  "ensureDirSync w = (case stateFile w of None \<Rightarrow> w\<lparr>stateFile := Some None\<rparr> | Some _ \<Rightarrow> w)"

text \<open>\<open>fileExists\<close> of \<open>.expo-shared/assets.json\<close>.\<close>

definition assetJsonExists :: "world \<Rightarrow> bool" where
  "assetJsonExists w = (case stateFile w of Some (Some _) \<Rightarrow> True | _ \<Rightarrow> False)"

text \<open>
  \<open>readAssetJsonAsync\<close>: make the directory, write \<open>{}\<close> when the file is missing, read
  the file.
\<close>

definition readAssetJsonAsync :: "world \<Rightarrow> world \<times> AssetOptimizationState" where
  "readAssetJsonAsync w =
     (let w1 = ensureDirSync w
      in case stateFile w1 of
           Some (Some s) \<Rightarrow> (w1, s)
         | _ \<Rightarrow> (w1\<lparr>stateFile := Some (Some [])\<rparr>, []))"

text \<open>\<open>calculateHash\<close>: \<open>readFileSync\<close> throws when the file is missing.\<close>

definition calculateHash :: "env \<Rightarrow> world \<Rightarrow> path \<Rightarrow> error + hash" where
  "calculateHash E w filePath =
     (case readFile w filePath of
        None \<Rightarrow> Inl IOError
      | Some contents \<Rightarrow> Inr (sha256 E contents))"

text \<open>
  \<open>assetInfo[hash]\<close> as a condition is true when the key is present with the value
  \<open>true\<close>. A hash read from \<open>hashes\<close> is \<open>undefined\<close> (here \<open>None\<close>) for a path that
  is not a key of \<open>hashes\<close>, and \<open>undefined\<close> used as a property key is the string
  \<open>undefined\<close>.
\<close>

definition propertyKey :: "hash option \<Rightarrow> string" where
  "propertyKey h = (case h of None \<Rightarrow> ''undefined'' | Some k \<Rightarrow> k)"

definition isSet :: "AssetOptimizationState \<Rightarrow> string \<Rightarrow> bool" where
  "isSet assetInfo k = (map_of assetInfo k = Some True)"

section \<open>\<open>isProjectOptimized\<close>\<close>

fun allOptimized ::
  "env \<Rightarrow> world \<Rightarrow> AssetOptimizationState \<Rightarrow> path list \<Rightarrow> error + bool" where
  "allOptimized E w assetInfo [] = Inr True"
| "allOptimized E w assetInfo (file # rest) =
     (case calculateHash E w file of
        Inl e \<Rightarrow> Inl e
      | Inr h \<Rightarrow> if \<not> isSet assetInfo h then Inr False else allOptimized E w assetInfo rest)"

definition isProjectOptimized ::
  "env \<Rightarrow> world \<Rightarrow> string \<Rightarrow> OptimizationOptions \<Rightarrow> (error + bool) \<times> world" where
  "isProjectOptimized E w projectDir options =
     (if \<not> assetJsonExists w then (Inr False, w)
      else
        (let selectedFiles = snd (getAssetFilesAsync E w projectDir options);
             (w1, assetInfo) = readAssetJsonAsync w
         in (allOptimized E w1 assetInfo selectedFiles, w1)))"

section \<open>\<open>optimizeAsync\<close>\<close>

text \<open>
  The first \<open>forEach\<close>: hash every file of \<open>allFiles\<close>, take the hashes that are set
  in \<open>assetInfo\<close> out of \<open>outdated\<close>, record the hash of each path in \<open>hashes\<close>.
\<close>

fun hashAll ::
  "env \<Rightarrow> world \<Rightarrow> AssetOptimizationState \<Rightarrow> path list \<Rightarrow>
   hash list \<times> (path \<times> hash) list \<Rightarrow> error + hash list \<times> (path \<times> hash) list" where
  "hashAll E w assetInfo [] acc = Inr acc"
| "hashAll E w assetInfo (filePath # rest) (outdated, hashes) =
     (case calculateHash E w filePath of
        Inl e \<Rightarrow> Inl e
      | Inr h \<Rightarrow>
          hashAll E w assetInfo rest
            (if isSet assetInfo h then removeAll h outdated else outdated,
             AList.update filePath h hashes))"

text \<open>The second \<open>forEach\<close>: delete every outdated hash from \<open>assetInfo\<close>.\<close>

definition deleteOutdated :: "hash list \<Rightarrow> AssetOptimizationState \<Rightarrow> AssetOptimizationState" where
  "deleteOutdated outdated assetInfo = fold AList.delete outdated assetInfo"

text \<open>
  The variables of the loop over \<open>images\<close>, and how one iteration ends: with the next
  iteration (\<open>Next\<close>: its end or a \<open>continue\<close>), with the \<open>return\<close> taken when the
  compressor is not available, or with an exception.
\<close>

record runState =
  wld :: world
  assetInfo :: AssetOptimizationState
  totalSaved :: int

datatype control = Next | EarlyReturn | Throw error

text \<open>
  One iteration, for the path \<open>img\<close> (the source's \<open>image\<close>). \<open>statSync\<close> throws on
  a missing file, and \<open>move\<close> of \<open>fs-extra\<close>
  (without \<open>overwrite\<close>) throws when the destination exists.
\<close>

definition optimizeImage ::
  "env \<Rightarrow> bool \<Rightarrow> int \<Rightarrow> (path \<times> hash) list \<Rightarrow> path \<Rightarrow> runState \<Rightarrow> control \<times> runState" where
  "optimizeImage E saveFlag q hashes img st =
     (let h = map_of hashes img in
      if isSet (assetInfo st) (propertyKey h) then (Next, st)
      else
        (let w1 = (wld st)\<lparr>probes := Suc (probes (wld st))\<rparr> in
         if \<not> isAvailable E (probes (wld st)) then (EarlyReturn, st\<lparr>wld := w1\<rparr>)
         else
           (case readFile w1 img of
              None \<Rightarrow> (Throw IOError, st\<lparr>wld := w1\<rparr>)
            | Some original \<Rightarrow>
                (let prevSize = int (length original);
                     newName = createNewFilename img;
                     optimized = sharp E img original q;
                     w2 = w1\<lparr>sharpLog := sharpLog w1 @ [img]\<rparr>;
                     newSize = int (length optimized);
                     amountSaved = prevSize - newSize
                 in if amountSaved > 0 then
                      (if readFile w2 newName \<noteq> None then (Throw IOError, st\<lparr>wld := w2\<rparr>)
                       else
                         (let w3 = writeFile newName original (removeFile img w2);
                              w4 = writeFile img optimized w3
                          in case calculateHash E w4 img of
                               Inl e \<Rightarrow> (Throw e, st\<lparr>wld := w4\<rparr>)
                             | Inr newHash \<Rightarrow>
                                 (let a1 = AList.update newHash True (assetInfo st);
                                      unlinked = removeFile newName w4;
                                      (w5, a2) =
                                        (if saveFlag then
                                           (if h = Some newHash then (unlinked, a1)
                                            else (w4, AList.update (propertyKey h) True a1))
                                         else (unlinked, a1))
                                  in (Next, \<lparr>wld = w5, assetInfo = a2,
                                              totalSaved = totalSaved st + amountSaved\<rparr>))))
                    else
                      (Next, st\<lparr>wld := w2,
                                 assetInfo := AList.update (propertyKey h) True (assetInfo st)\<rparr>)))))"

fun optimizeLoop ::
  "env \<Rightarrow> bool \<Rightarrow> int \<Rightarrow> (path \<times> hash) list \<Rightarrow> path list \<Rightarrow> runState \<Rightarrow> control \<times> runState" where
  "optimizeLoop E saveFlag q hashes [] st = (Next, st)"
| "optimizeLoop E saveFlag q hashes (img # images) st =
     (case optimizeImage E saveFlag q hashes img st of
        (Next, st') \<Rightarrow> optimizeLoop E saveFlag q hashes images st'
      | (c, st') \<Rightarrow> (c, st'))"

text \<open>The list the loop runs over.\<close>

definition workingSet :: "OptimizationOptions \<Rightarrow> path list \<times> path list \<Rightarrow> path list" where
  "workingSet options found =
     (if truthyStr (includeGlob options) \<or> truthyStr (excludeGlob options)
      then snd found else fst found)"

text \<open>
  \<open>optimizeAsync\<close>. The result is how the call ended and the variables at that
  moment. \<open>assetJson.writeAsync(assetInfo)\<close> is the last statement of the function and
  runs when the loop has run to its end; it is not awaited, so the call returns with
  the write started and \<open>assets.json\<close> as it was loaded.
\<close>

definition optimizeAsync ::
  "env \<Rightarrow> world \<Rightarrow> string \<Rightarrow> OptimizationOptions \<Rightarrow> control \<times> runState" where
  "optimizeAsync E w0 projectRoot options =
     (let (w1, loaded) = readAssetJsonAsync w0;
          outdated = map fst loaded;
          found = getAssetFilesAsync E w1 projectRoot options
      in case hashAll E w1 loaded (fst found) (outdated, []) of
           Inl e \<Rightarrow> (Throw e, \<lparr>wld = w1, assetInfo = loaded, totalSaved = 0\<rparr>)
         | Inr (outdated', hashes) \<Rightarrow>
             (let assetInfo1 = deleteOutdated outdated' loaded;
                  q = (case quality options of None \<Rightarrow> 80 | Some n \<Rightarrow> n);
                  images = workingSet options found
              in case optimizeLoop E (truthyBool (save options)) q hashes images
                        \<lparr>wld = w1, assetInfo = assetInfo1, totalSaved = 0\<rparr> of
                   (Next, st) \<Rightarrow>
                     (Next, st\<lparr>wld := (wld st)\<lparr>pendingWrite := Some (assetInfo st)\<rparr>\<rparr>)
                 | (c, st) \<Rightarrow> (c, st)))"

text \<open>The world once the write that was started has completed.\<close>

definition settle :: "world \<Rightarrow> world" where
  "settle w =
     (case pendingWrite w of
        None \<Rightarrow> w
      | Some s \<Rightarrow> w\<lparr>stateFile := Some (Some s), pendingWrite := None\<rparr>)"

section \<open>Example projects\<close>

text \<open>
  A toy digest that is injective, and a project with one image whose content is
  recorded in \<open>assets.json\<close>.
\<close>

definition toyDigest :: "bytes \<Rightarrow> hash" where
  "toyDigest b = CHR ''#'' # b"

definition noOptions :: OptimizationOptions where
  "noOptions = \<lparr>quality = None, includeGlob = None, excludeGlob = None, save = None\<rparr>"

definition oneImageEnv :: env where
  "oneImageEnv =
     \<lparr>sha256 = toyDigest, sharp = (\<lambda>p b q. drop 2 b), isAvailable = (\<lambda>n. True),
      globSync = (\<lambda>fs pat. if pat = ''**/*'' then [''a.png''] else []),
      assetBundlePatterns = None\<rparr>"

definition trackedWorld :: world where
  "trackedWorld =
     \<lparr>files = [''/p/a.png'' \<mapsto> ''abc''], stateFile = Some (Some [(''#abc'', True)]),
      probes = 0, sharpLog = [], pendingWrite = None\<rparr>"

section \<open>The selection in the words of the specification\<close>

text \<open>
  The extension test of \<open>filterImages\<close> on one name, and the path it builds for it.
\<close>

definition isImage :: "string \<Rightarrow> bool" where
  "isImage file = regexTest (toLowerCase file)"

definition withDirectory :: "string \<Rightarrow> string \<Rightarrow> path" where
  "withDirectory projectDir file = replaceSlashes (projectDir @ ''/'' @ file)"

text \<open>
  The selected candidates as the specification words them: the discovered files that
  pass the include filter, when one is given, and do not match the exclude filter, when
  one is given; it is compared below with what \<open>getAssetFilesAsync\<close> returns.
\<close>

definition selectedCandidates :: "env \<Rightarrow> world \<Rightarrow> string \<Rightarrow> OptimizationOptions \<Rightarrow> path list" where
  "selectedCandidates E w projectDir options =
     filterImages
       (filter (\<lambda>file.
            (if truthyStr (includeGlob options)
             then file \<in> set (globSync E (files w) (the (includeGlob options))) else True) \<and>
            (if truthyStr (excludeGlob options)
             then file \<notin> set (globSync E (files w) (the (excludeGlob options))) else True))
          (discovered E w))
       projectDir"

text \<open>
  What the source takes for \<open>included\<close>, and when a file is taken out by \<open>exclude\<close>.
\<close>

definition includedFiles :: "env \<Rightarrow> world \<Rightarrow> OptimizationOptions \<Rightarrow> string list" where
  "includedFiles E w options =
     (if truthyStr (includeGlob options)
      then globSync E (files w) (the (includeGlob options)) else discovered E w)"

definition isExcluded :: "env \<Rightarrow> world \<Rightarrow> OptimizationOptions \<Rightarrow> string \<Rightarrow> bool" where
  "isExcluded E w options file =
     (truthyStr (excludeGlob options) \<and>
      file \<in> set (globSync E (files w) (the (excludeGlob options))))"

text \<open>
  The project of the filter example: \<open>logo.png\<close>, \<open>icon.png\<close> and \<open>photo.jpg\<close>, with
  include \<open>*.png\<close> and exclude \<open>logo.png\<close>.
\<close>

definition threeFilesEnv :: env where
  "threeFilesEnv =
     \<lparr>sha256 = toyDigest, sharp = (\<lambda>p b q. drop 2 b), isAvailable = (\<lambda>n. True),
      globSync = (\<lambda>fs pat.
         if pat = ''**/*'' then [''logo.png'', ''icon.png'', ''photo.jpg'']
         else if pat = ''*.png'' then [''logo.png'', ''icon.png'']
         else if pat = ''logo.png'' then [''logo.png''] else []),
      assetBundlePatterns = None\<rparr>"

definition pngNotLogo :: OptimizationOptions where
  "pngNotLogo = noOptions\<lparr>includeGlob := Some ''*.png'', excludeGlob := Some ''logo.png''\<rparr>"

text \<open>
  A project whose \<open>assetBundlePatterns\<close> is \<open>assets/*\<close>, optimized with an include
  pattern \<open>other/*.png\<close> that matches a file the bundle patterns do not. Both files
  hold the same bytes, and \<open>assets.json\<close> has their hash. The compressor does not
  shrink them.
\<close>

definition outsideEnv :: env where
  "outsideEnv =
     \<lparr>sha256 = toyDigest, sharp = (\<lambda>p b q. b), isAvailable = (\<lambda>n. True),
      globSync = (\<lambda>fs pat.
         if pat = ''assets/*'' then [''assets/a.png'']
         else if pat = ''other/*.png'' then [''other/b.png''] else []),
      assetBundlePatterns = Some [''assets/*'']\<rparr>"

definition includeOther :: OptimizationOptions where
  "includeOther = noOptions\<lparr>includeGlob := Some ''other/*.png''\<rparr>"

definition outsideWorld :: world where
  "outsideWorld =
     \<lparr>files = [''/p/assets/a.png'' \<mapsto> ''aaaa'', ''/p/other/b.png'' \<mapsto> ''aaaa''],
      stateFile = Some (Some [(''#aaaa'', True)]), probes = 0, sharpLog = [],
      pendingWrite = None\<rparr>"


text \<open>The hash of the content a path has in a world.\<close>

definition contentHash :: "env \<Rightarrow> world \<Rightarrow> path \<Rightarrow> hash" where
  "contentHash E w f = sha256 E (the (readFile w f))"

text \<open>
  Names for what \<open>optimizeAsync\<close> computes on the way: the candidates (\<open>allFiles\<close>), the
  list the loop runs over (\<open>images\<close>), the quality, and the last statement applied to
  the result of the loop.
\<close>

definition allCandidates :: "env \<Rightarrow> world \<Rightarrow> string \<Rightarrow> OptimizationOptions \<Rightarrow> path list" where
  "allCandidates E w projectRoot options = fst (getAssetFilesAsync E w projectRoot options)"

definition workingFiles :: "env \<Rightarrow> world \<Rightarrow> string \<Rightarrow> OptimizationOptions \<Rightarrow> path list" where
  "workingFiles E w projectRoot options = workingSet options (getAssetFilesAsync E w projectRoot options)"

definition qualityOf :: "OptimizationOptions \<Rightarrow> int" where
  "qualityOf options = (case quality options of None \<Rightarrow> 80 | Some n \<Rightarrow> n)"

definition writeAfterLoop :: "control \<times> runState \<Rightarrow> control \<times> runState" where
  "writeAfterLoop r =
     (case r of
        (Next, st) \<Rightarrow> (Next, st\<lparr>wld := (wld st)\<lparr>pendingWrite := Some (assetInfo st)\<rparr>\<rparr>)
      | (c, st) \<Rightarrow> (c, st))"

text \<open>
  A project with two images that the compressor does not shrink, a compressor that is
  available at the first probe only, and a state file with the hash of a file that no
  longer exists.
\<close>

definition abortEnv :: env where
  "abortEnv =
     \<lparr>sha256 = toyDigest, sharp = (\<lambda>p b q. b), isAvailable = (\<lambda>n. n = 0),
      globSync = (\<lambda>fs pat. if pat = ''**/*'' then [''a.png'', ''b.png''] else []),
      assetBundlePatterns = None\<rparr>"

definition abortWorld :: world where
  "abortWorld =
     \<lparr>files = [''/p/a.png'' \<mapsto> ''aaaa'', ''/p/b.png'' \<mapsto> ''bbbb''],
      stateFile = Some (Some [(''#gone'', True)]), probes = 0, sharpLog = [],
      pendingWrite = None\<rparr>"

text \<open>
  The project of \<open>abortWorld\<close> with a compressor that stays available, and a project
  where the backup name of the only image is taken and the compressor shrinks the
  image, so that \<open>move\<close> throws.
\<close>

definition finishEnv :: env where
  "finishEnv = abortEnv\<lparr>isAvailable := (\<lambda>n. True)\<rparr>"

definition takenWorld :: world where
  "takenWorld =
     \<lparr>files = [''/p/a.png'' \<mapsto> ''abcdef'', ''/p/a.orig.png'' \<mapsto> ''old''],
      stateFile = Some (Some [(''#gone'', True)]), probes = 0, sharpLog = [],
      pendingWrite = None\<rparr>"

text \<open>The project of \<open>outsideEnv\<close> with no compressor installed.\<close>

definition unavailableEnv :: env where
  "unavailableEnv = outsideEnv\<lparr>isAvailable := (\<lambda>n. False)\<rparr>"

text \<open>
  The project of \<open>outsideEnv\<close> on its first run: \<open>other/b.png\<close> has bytes of its own and
  there is no \<open>assets.json\<close>. \<open>shrinkEnv\<close> is the same project with a compressor that
  drops two bytes, and \<open>includeOtherSave\<close> adds \<open>save\<close> to the options.
\<close>

definition freshWorld :: world where
  "freshWorld =
     \<lparr>files = [''/p/assets/a.png'' \<mapsto> ''aaaa'', ''/p/other/b.png'' \<mapsto> ''bbbbbb''],
      stateFile = None, probes = 0, sharpLog = [], pendingWrite = None\<rparr>"

definition shrinkEnv :: env where
  "shrinkEnv = outsideEnv\<lparr>sharp := (\<lambda>p b q. drop 2 b)\<rparr>"

definition includeOtherSave :: OptimizationOptions where
  "includeOtherSave = includeOther\<lparr>save := Some True\<rparr>"

text \<open>
  A project with one image, a compressor that drops two bytes, a discovery that finds
  the image and, once it exists, its backup, and the option \<open>save\<close>. \<open>savedWorld\<close> is
  the project after \<open>expo optimize --save\<close>: the image compressed, the backup beside it
  and both hashes in \<open>assets.json\<close>.
\<close>

definition saveEnv :: env where
  "saveEnv =
     \<lparr>sha256 = toyDigest, sharp = (\<lambda>p b q. drop 2 b), isAvailable = (\<lambda>n. True),
      globSync = (\<lambda>fs pat.
         if pat = ''**/*''
         then filter (\<lambda>f. fs (''/p/'' @ f) \<noteq> None) [''logo.png'', ''logo.orig.png'']
         else []),
      assetBundlePatterns = None\<rparr>"

definition saveOptions :: OptimizationOptions where
  "saveOptions = noOptions\<lparr>save := Some True\<rparr>"

definition logoWorld :: world where
  "logoWorld =
     \<lparr>files = [''/p/logo.png'' \<mapsto> ''abcdef''], stateFile = None, probes = 0, sharpLog = [],
      pendingWrite = None\<rparr>"

definition savedWorld :: world where
  "savedWorld =
     \<lparr>files = [''/p/logo.png'' \<mapsto> ''cdef'', ''/p/logo.orig.png'' \<mapsto> ''abcdef''],
      stateFile = Some (Some [(''#cdef'', True), (''#abcdef'', True)]), probes = 1,
      sharpLog = [''/p/logo.png''], pendingWrite = None\<rparr>"

text \<open>
  The hashes that one compression of \<open>img\<close> finalizes, from the bytes \<open>b\<close> the file had:
  the hash of the smaller output and, with \<open>save\<close> and a changed hash, that of the
  original; the hash of the original when the output is no smaller.
\<close>

definition finalizedBy :: "env \<Rightarrow> bool \<Rightarrow> int \<Rightarrow> path \<Rightarrow> bytes \<Rightarrow> hash set" where
  "finalizedBy E saveFlag q img b =
     (let c = sharp E img b q in
      if length c < length b then
        (if saveFlag \<and> sha256 E b \<noteq> sha256 E c then {sha256 E c, sha256 E b}
         else {sha256 E c})
      else {sha256 E b})"

text \<open>A project with one image that is not optimized yet.\<close>

definition unoptimizedWorld :: world where
  "unoptimizedWorld =
     \<lparr>files = [''/p/a.png'' \<mapsto> ''abcdef''], stateFile = None, probes = 0, sharpLog = [],
      pendingWrite = None\<rparr>"

section \<open>Properties\<close>

subsection \<open>The file system\<close>

lemmas eval_path = readFile_def normalize_def isSlash_def Let_def

lemma readFile_writeFile:
  "readFile (writeFile p b w) p' = (if normalize p' = normalize p then Some b else readFile w p')"
  by (simp add: readFile_def writeFile_def)

lemma readFile_removeFile:
  "readFile (removeFile p w) p' = (if normalize p' = normalize p then None else readFile w p')"
  by (simp add: readFile_def removeFile_def)

lemma writeFile_fields:
  "stateFile (writeFile p b w) = stateFile w" "probes (writeFile p b w) = probes w"
  "sharpLog (writeFile p b w) = sharpLog w" "pendingWrite (writeFile p b w) = pendingWrite w"
  by (simp_all add: writeFile_def)

lemma removeFile_fields:
  "stateFile (removeFile p w) = stateFile w" "probes (removeFile p w) = probes w"
  "sharpLog (removeFile p w) = sharpLog w" "pendingWrite (removeFile p w) = pendingWrite w"
  by (simp_all add: removeFile_def)

lemma readFile_other_fields:
  "readFile (w\<lparr>probes := n\<rparr>) = readFile w" "readFile (w\<lparr>sharpLog := l\<rparr>) = readFile w"
  "readFile (w\<lparr>stateFile := s\<rparr>) = readFile w" "readFile (w\<lparr>pendingWrite := x\<rparr>) = readFile w"
  by (simp_all add: readFile_def fun_eq_iff)

subsection \<open>The state file\<close>

lemma readAssetJsonAsync_existing:
  "stateFile w = Some (Some s) \<Longrightarrow> readAssetJsonAsync w = (w, s)"
  by (simp add: readAssetJsonAsync_def ensureDirSync_def)

lemma assetJsonExists_iff: "assetJsonExists w = (\<exists>s. stateFile w = Some (Some s))"
  by (auto simp: assetJsonExists_def split: option.splits)

subsection \<open>\<open>isProjectOptimized\<close> reads and never writes\<close>

lemma allOptimized_readable:
  "\<forall>f\<in>set fs. readFile w f \<noteq> None \<Longrightarrow>
   allOptimized E w a fs = Inr (\<forall>f\<in>set fs. isSet a (sha256 E (the (readFile w f))))"
  by (induction fs) (auto simp: calculateHash_def)

text \<open>
  Claim C8. \<open>isProjectOptimized\<close> returns the world it was given, in every case (also
  when reading a selected file throws): it creates neither the directory nor the
  file and writes nothing. Without \<open>assets.json\<close> the answer is \<open>false\<close>. With
  \<open>assets.json\<close> holding \<open>s\<close>, and every selected file readable, the answer is \<open>true\<close>
  exactly when the content hash of every selected file is set in \<open>s\<close>.
\<close>

theorem isProjectOptimized_read_only:
  "snd (isProjectOptimized E w projectDir options) = w \<and>
   (\<not> assetJsonExists w \<longrightarrow> fst (isProjectOptimized E w projectDir options) = Inr False) \<and>
   (\<forall>s. stateFile w = Some (Some s) \<and>
        (\<forall>f\<in>set (snd (getAssetFilesAsync E w projectDir options)). readFile w f \<noteq> None) \<longrightarrow>
        fst (isProjectOptimized E w projectDir options) =
          Inr (\<forall>f\<in>set (snd (getAssetFilesAsync E w projectDir options)).
                 isSet s (sha256 E (the (readFile w f)))))"
proof (cases "assetJsonExists w")
  case False
  then show ?thesis by (simp add: isProjectOptimized_def assetJsonExists_iff)
next
  case True
  then obtain s where s: "stateFile w = Some (Some s)"
    by (auto simp: assetJsonExists_iff)
  have r: "readAssetJsonAsync w = (w, s)"
    using s by (rule readAssetJsonAsync_existing)
  show ?thesis
    using True s by (simp add: isProjectOptimized_def r allOptimized_readable)
qed

theorem isProjectOptimized_read_only_witness:
  "stateFile trackedWorld = Some (Some [(''#abc'', True)]) \<and>
   snd (getAssetFilesAsync oneImageEnv trackedWorld ''/p'' noOptions) = [''/p/a.png''] \<and>
   readFile trackedWorld ''/p/a.png'' = Some ''abc'' \<and>
   isProjectOptimized oneImageEnv trackedWorld ''/p'' noOptions = (Inr True, trackedWorld) \<and>
   \<not> assetJsonExists (trackedWorld\<lparr>stateFile := None\<rparr>) \<and>
   isProjectOptimized oneImageEnv (trackedWorld\<lparr>stateFile := None\<rparr>) ''/p'' noOptions =
     (Inr False, trackedWorld\<lparr>stateFile := None\<rparr>)"
proof -
  have sel: "snd (getAssetFilesAsync oneImageEnv trackedWorld ''/p'' noOptions) = [''/p/a.png'']"
    by (simp add: getAssetFilesAsync_def discovered_def oneImageEnv_def noOptions_def
        truthyStr_def filterImages_def regexTest_def endsWith_def toLowerCase_def
        toLowerCaseChar_def)
  have st: "stateFile trackedWorld = Some (Some [(''#abc'', True)])"
    by (simp add: trackedWorld_def)
  have rd: "\<forall>f\<in>set (snd (getAssetFilesAsync oneImageEnv trackedWorld ''/p'' noOptions)).
      readFile trackedWorld f \<noteq> None"
    by (simp add: sel) (simp add: trackedWorld_def eval_path)
  have val: "(\<forall>f\<in>set (snd (getAssetFilesAsync oneImageEnv trackedWorld ''/p'' noOptions)).
      isSet [(''#abc'', True)] (sha256 oneImageEnv (the (readFile trackedWorld f))))"
    by (simp add: sel) (simp add: trackedWorld_def oneImageEnv_def toyDigest_def isSet_def eval_path)
  have no: "\<not> assetJsonExists (trackedWorld\<lparr>stateFile := None\<rparr>)"
    by (simp add: assetJsonExists_def)
  note t = isProjectOptimized_read_only [of oneImageEnv trackedWorld "''/p''" noOptions]
  note u = isProjectOptimized_read_only
             [of oneImageEnv "trackedWorld\<lparr>stateFile := None\<rparr>" "''/p''" noOptions]
  have a1: "snd (isProjectOptimized oneImageEnv trackedWorld ''/p'' noOptions) = trackedWorld"
    by (rule t [THEN conjunct1])
  have a2: "fst (isProjectOptimized oneImageEnv trackedWorld ''/p'' noOptions) = Inr True"
    using t [THEN conjunct2, THEN conjunct2, rule_format, OF conjI [OF st rd]] val by simp
  have a: "isProjectOptimized oneImageEnv trackedWorld ''/p'' noOptions = (Inr True, trackedWorld)"
    by (simp add: prod_eq_iff a1 a2)
  have b1: "snd (isProjectOptimized oneImageEnv (trackedWorld\<lparr>stateFile := None\<rparr>) ''/p'' noOptions)
      = trackedWorld\<lparr>stateFile := None\<rparr>"
    by (rule u [THEN conjunct1])
  have b2: "fst (isProjectOptimized oneImageEnv (trackedWorld\<lparr>stateFile := None\<rparr>) ''/p'' noOptions)
      = Inr False"
    by (rule u [THEN conjunct2, THEN conjunct1, rule_format, OF no])
  have b: "isProjectOptimized oneImageEnv (trackedWorld\<lparr>stateFile := None\<rparr>) ''/p'' noOptions =
     (Inr False, trackedWorld\<lparr>stateFile := None\<rparr>)"
    by (simp add: prod_eq_iff b1 b2)
  have fl: "readFile trackedWorld ''/p/a.png'' = Some ''abc''"
    by (simp add: trackedWorld_def eval_path)
  from st sel fl a no b show ?thesis by (intro conjI)
qed

subsection \<open>Selection of the asset files\<close>

lemma endsWith_iff: "endsWith s t = (\<exists>u. s = u @ t)"
proof
  assume "endsWith s t"
  then have "s = take (length s - length t) s @ t"
    by (metis append_take_drop_id endsWith_def)
  then show "\<exists>u. s = u @ t" ..
next
  assume "\<exists>u. s = u @ t"
  then show "endsWith s t" by (auto simp: endsWith_def)
qed

lemma endsWith_after_slash:
  assumes "CHR ''/'' \<notin> set t"
  shows "endsWith (x @ CHR ''/'' # y) t = endsWith y t"
proof
  assume "endsWith (x @ CHR ''/'' # y) t"
  then obtain u where u: "x @ CHR ''/'' # y = u @ t" by (auto simp: endsWith_iff)
  then obtain v where "(x @ v = u \<and> CHR ''/'' # y = v @ t) \<or> (x = u @ v \<and> v @ CHR ''/'' # y = t)"
    by (auto simp: append_eq_append_conv2)
  then show "endsWith y t"
  proof
    assume a: "x @ v = u \<and> CHR ''/'' # y = v @ t"
    show ?thesis
    proof (cases v)
      case Nil
      with a assms show ?thesis by auto
    next
      case (Cons c v')
      with a have "y = v' @ t" by simp
      then show ?thesis by (auto simp: endsWith_iff)
    qed
  next
    assume "x = u @ v \<and> v @ CHR ''/'' # y = t"
    then have "CHR ''/'' \<in> set t" by auto
    with assms show ?thesis by simp
  qed
next
  assume "endsWith y t"
  then obtain v where "y = v @ t" by (auto simp: endsWith_iff)
  then have "x @ CHR ''/'' # y = (x @ CHR ''/'' # v) @ t" by simp
  then show "endsWith (x @ CHR ''/'' # y) t" unfolding endsWith_iff by blast
qed

lemma replaceSlashes_cases:
  "replaceSlashes s = s \<or> (\<exists>a b. s = a @ ''//'' @ b \<and> replaceSlashes s = a @ ''/'' @ b)"
proof (induction s rule: replaceSlashes.induct)
  case (1 a b cs)
  show ?case
  proof (cases "a = CHR ''/'' \<and> b = CHR ''/''")
    case True
    then have "a # b # cs = [] @ ''//'' @ cs \<and> replaceSlashes (a # b # cs) = [] @ ''/'' @ cs"
      by simp
    then show ?thesis by blast
  next
    case False
    with 1 have "replaceSlashes (b # cs) = b # cs \<or>
      (\<exists>x y. b # cs = x @ ''//'' @ y \<and> replaceSlashes (b # cs) = x @ ''/'' @ y)" by simp
    then show ?thesis
    proof
      assume "replaceSlashes (b # cs) = b # cs"
      with False show ?thesis by auto
    next
      assume "\<exists>x y. b # cs = x @ ''//'' @ y \<and> replaceSlashes (b # cs) = x @ ''/'' @ y"
      then obtain x y where xy: "b # cs = x @ ''//'' @ y" "replaceSlashes (b # cs) = x @ ''/'' @ y"
        by blast
      have step: "replaceSlashes (a # b # cs) = a # replaceSlashes (b # cs)"
        using False by auto
      have "a # b # cs = (a # x) @ ''//'' @ y"
        using xy(1) by simp
      moreover have "replaceSlashes (a # b # cs) = (a # x) @ ''/'' @ y"
        unfolding step xy(2) by simp
      ultimately have "a # b # cs = (a # x) @ ''//'' @ y \<and>
         replaceSlashes (a # b # cs) = (a # x) @ ''/'' @ y" by (rule conjI)
      then show ?thesis by blast
    qed
  qed
qed simp_all

lemma toLowerCaseChar_slash: "toLowerCaseChar CHR ''/'' = CHR ''/''"
  by (simp add: toLowerCaseChar_def)

lemma toLowerCase_append: "toLowerCase (a @ b) = toLowerCase a @ toLowerCase b"
  by (simp add: toLowerCase_def)

lemma toLowerCase_slash_Cons: "toLowerCase (CHR ''/'' # b) = CHR ''/'' # toLowerCase b"
  by (simp add: toLowerCase_def toLowerCaseChar_slash)

lemma endsWith_withDirectory:
  assumes t: "CHR ''/'' \<notin> set t"
  shows "endsWith (toLowerCase (withDirectory d f)) t = endsWith (toLowerCase f) t"
proof -
  let ?s = "d @ ''/'' @ f"
  have base: "endsWith (toLowerCase ?s) t = endsWith (toLowerCase f) t"
    using endsWith_after_slash [OF t, of "toLowerCase d" "toLowerCase f"]
    by (simp add: toLowerCase_append toLowerCase_slash_Cons)
  from replaceSlashes_cases [of ?s] show ?thesis
  proof
    assume "replaceSlashes ?s = ?s"
    with base show ?thesis by (simp add: withDirectory_def)
  next
    assume "\<exists>a b. ?s = a @ ''//'' @ b \<and> replaceSlashes ?s = a @ ''/'' @ b"
    then obtain a b where ab: "?s = a @ ''//'' @ b" "replaceSlashes ?s = a @ ''/'' @ b" by blast
    have "endsWith (toLowerCase (a @ ''/'' @ b)) t = endsWith (toLowerCase b) t"
      using endsWith_after_slash [OF t, of "toLowerCase a" "toLowerCase b"]
      by (simp add: toLowerCase_append toLowerCase_slash_Cons)
    moreover have "endsWith (toLowerCase (a @ ''//'' @ b)) t = endsWith (toLowerCase b) t"
      using endsWith_after_slash [OF t, of "toLowerCase a @ ''/''" "toLowerCase b"]
      by (simp add: toLowerCase_append toLowerCase_slash_Cons)
    ultimately show ?thesis using ab base by (simp add: withDirectory_def)
  qed
qed

lemma isImage_withDirectory: "isImage (withDirectory d f) = isImage f"
  by (simp add: isImage_def regexTest_def endsWith_withDirectory)

lemma filterImages_eq:
  "filterImages fs d = map (withDirectory d) (filter isImage fs)"
proof -
  have i: "(\<lambda>file. regexTest (toLowerCase file)) = isImage"
    by (simp add: fun_eq_iff isImage_def)
  have w: "(\<lambda>file. replaceSlashes (d @ ''/'' @ file)) = withDirectory d"
    by (simp add: fun_eq_iff withDirectory_def)
  have "filterImages fs d = filter isImage (map (withDirectory d) fs)"
    unfolding filterImages_def Let_def i w ..
  also have "\<dots> = map (withDirectory d) (filter isImage fs)"
    by (simp add: filter_map o_def isImage_withDirectory)
  finally show ?thesis .
qed

lemmas eval_select =
  getAssetFilesAsync_def discovered_def truthyStr_def filterImages_def regexTest_def
  endsWith_def toLowerCase_def toLowerCaseChar_def noOptions_def selectedCandidates_def

lemmas eval_run =
  optimizeAsync_def readAssetJsonAsync_def ensureDirSync_def calculateHash_def isSet_def
  deleteOutdated_def optimizeImage_def workingSet_def propertyKey_def truthyBool_def
  toyDigest_def Let_def readFile_def writeFile_def removeFile_def normalize_def isSlash_def

lemmas eval_backup = createNewFilename_def parse_def join_def isDot_def

text \<open>
  Claim C6: \<open>allFiles\<close> is every discovered image whatever the filters, and
  \<open>selectedFiles\<close> is the subset of the discovered candidates that passes the include
  filter and does not match the exclude filter. The comment of \<open>getAssetFilesAsync\<close>
  says the same (the assets found under \<open>assetBundlePatterns\<close> are filtered by the
  flags), and \<open>optimizeAsync\<close> relies on it when it reads \<open>hashes[image]\<close>. The code
  globs the include pattern afresh instead: with bundle pattern \<open>assets/*\<close> and include
  \<open>other/*.png\<close> the selected file \<open>/p/other/b.png\<close> is not among the discovered
  candidates, where the selection in the specification's words is empty. For that
  file \<open>optimizeAsync\<close> finds no hash, compresses it although its bytes are finalized,
  and starts a write of the state with the key \<open>undefined\<close>.
\<close>

theorem getAssetFilesAsync_include_outside_candidates:
  "fst (getAssetFilesAsync outsideEnv outsideWorld ''/p'' includeOther) = [''/p/assets/a.png''] \<and>
   snd (getAssetFilesAsync outsideEnv outsideWorld ''/p'' includeOther) = [''/p/other/b.png''] \<and>
   selectedCandidates outsideEnv outsideWorld ''/p'' includeOther = [] \<and>
   \<not> set (snd (getAssetFilesAsync outsideEnv outsideWorld ''/p'' includeOther))
       \<subseteq> set (fst (getAssetFilesAsync outsideEnv outsideWorld ''/p'' includeOther)) \<and>
   sharpLog (wld (snd (optimizeAsync outsideEnv outsideWorld ''/p'' includeOther))) =
     [''/p/other/b.png''] \<and>
   pendingWrite (wld (snd (optimizeAsync outsideEnv outsideWorld ''/p'' includeOther))) =
     Some [(''#aaaa'', True), (''undefined'', True)]"
  by (simp add: eval_select eval_run outsideEnv_def outsideWorld_def includeOther_def)

text \<open>
  What \<open>getAssetFilesAsync\<close> returns in general, and when it agrees with the
  specification: \<open>allFiles\<close> is the discovered files with an image extension;
  \<open>selectedFiles\<close> is the images among the files matched by the include pattern (the
  discovered files when there is none) that the exclude pattern does not match, which
  is the subset the specification describes whenever every included file is a
  discovered file.
\<close>

lemma getAssetFilesAsync_selection:
  "fst (getAssetFilesAsync E w projectDir options) =
     map (withDirectory projectDir) (filter isImage (discovered E w)) \<and>
   snd (getAssetFilesAsync E w projectDir options) =
     map (withDirectory projectDir)
       (filter isImage (filter (\<lambda>file. \<not> isExcluded E w options file) (includedFiles E w options))) \<and>
   (set (includedFiles E w options) \<subseteq> set (discovered E w) \<longrightarrow>
    set (snd (getAssetFilesAsync E w projectDir options)) =
    set (selectedCandidates E w projectDir options))"
proof (intro conjI impI)
  show "fst (getAssetFilesAsync E w projectDir options) =
     map (withDirectory projectDir) (filter isImage (discovered E w))"
    by (simp add: getAssetFilesAsync_def Let_def filterImages_eq)
  show sel: "snd (getAssetFilesAsync E w projectDir options) =
     map (withDirectory projectDir)
       (filter isImage (filter (\<lambda>file. \<not> isExcluded E w options file) (includedFiles E w options)))"
    by (simp add: getAssetFilesAsync_def Let_def filterImages_eq includedFiles_def isExcluded_def)
  assume sub: "set (includedFiles E w options) \<subseteq> set (discovered E w)"
  have "set (filter (\<lambda>file. \<not> isExcluded E w options file) (includedFiles E w options)) =
        set (filter (\<lambda>file.
            (if truthyStr (includeGlob options)
             then file \<in> set (globSync E (files w) (the (includeGlob options))) else True) \<and>
            (if truthyStr (excludeGlob options)
             then file \<notin> set (globSync E (files w) (the (excludeGlob options))) else True))
          (discovered E w))"
    using sub by (auto simp: includedFiles_def isExcluded_def split: if_splits)
  then have "set (filter isImage
                    (filter (\<lambda>file. \<not> isExcluded E w options file) (includedFiles E w options))) =
        set (filter isImage (filter (\<lambda>file.
            (if truthyStr (includeGlob options)
             then file \<in> set (globSync E (files w) (the (includeGlob options))) else True) \<and>
            (if truthyStr (excludeGlob options)
             then file \<notin> set (globSync E (files w) (the (excludeGlob options))) else True))
          (discovered E w)))"
    by (simp only: set_filter)
  then show "set (snd (getAssetFilesAsync E w projectDir options)) =
    set (selectedCandidates E w projectDir options)"
    unfolding sel selectedCandidates_def filterImages_eq by (simp only: set_map)
qed

lemma getAssetFilesAsync_filter_example:
  "fst (getAssetFilesAsync threeFilesEnv trackedWorld ''/p'' pngNotLogo) =
     [''/p/logo.png'', ''/p/icon.png'', ''/p/photo.jpg''] \<and>
   snd (getAssetFilesAsync threeFilesEnv trackedWorld ''/p'' pngNotLogo) = [''/p/icon.png'']"
  by (simp add: eval_select threeFilesEnv_def pngNotLogo_def)

subsection \<open>The name of the backup\<close>


















subsection \<open>One iteration of the loop\<close>

lemma optimizeImage_skip:
  "isSet (assetInfo st) (propertyKey (map_of hashes img)) \<Longrightarrow>
   optimizeImage E saveFlag q hashes img st = (Next, st)"
  by (simp add: optimizeImage_def)

lemma optimizeImage_unavailable:
  "\<not> isSet (assetInfo st) (propertyKey (map_of hashes img)) \<Longrightarrow>
   \<not> isAvailable E (probes (wld st)) \<Longrightarrow>
   optimizeImage E saveFlag q hashes img st =
     (EarlyReturn, st\<lparr>wld := (wld st)\<lparr>probes := Suc (probes (wld st))\<rparr>\<rparr>)"
  by (simp add: optimizeImage_def Let_def readFile_other_fields)

lemma optimizeImage_missing:
  "\<not> isSet (assetInfo st) (propertyKey (map_of hashes img)) \<Longrightarrow>
   isAvailable E (probes (wld st)) \<Longrightarrow> readFile (wld st) img = None \<Longrightarrow>
   optimizeImage E saveFlag q hashes img st =
     (Throw IOError, st\<lparr>wld := (wld st)\<lparr>probes := Suc (probes (wld st))\<rparr>\<rparr>)"
  by (simp add: optimizeImage_def Let_def readFile_other_fields)

lemma optimizeImage_notImproved:
  "\<not> isSet (assetInfo st) (propertyKey (map_of hashes img)) \<Longrightarrow>
   isAvailable E (probes (wld st)) \<Longrightarrow> readFile (wld st) img = Some original \<Longrightarrow>
   length original \<le> length (sharp E img original q) \<Longrightarrow>
   optimizeImage E saveFlag q hashes img st =
     (Next, st\<lparr>wld := (wld st)\<lparr>probes := Suc (probes (wld st)),
                                  sharpLog := sharpLog (wld st) @ [img]\<rparr>,
                assetInfo := AList.update (propertyKey (map_of hashes img)) True (assetInfo st)\<rparr>)"
  by (simp add: optimizeImage_def Let_def readFile_other_fields)

lemma optimizeImage_destExists:
  "\<not> isSet (assetInfo st) (propertyKey (map_of hashes img)) \<Longrightarrow>
   isAvailable E (probes (wld st)) \<Longrightarrow> readFile (wld st) img = Some original \<Longrightarrow>
   length (sharp E img original q) < length original \<Longrightarrow>
   readFile (wld st) (createNewFilename img) \<noteq> None \<Longrightarrow>
   optimizeImage E saveFlag q hashes img st =
     (Throw IOError, st\<lparr>wld := (wld st)\<lparr>probes := Suc (probes (wld st)),
                                  sharpLog := sharpLog (wld st) @ [img]\<rparr>\<rparr>)"
  by (simp add: optimizeImage_def Let_def readFile_other_fields)

lemma optimizeImage_improved:
  assumes "\<not> isSet (assetInfo st) (propertyKey (map_of hashes img))"
    and "isAvailable E (probes (wld st))" and "readFile (wld st) img = Some original"
    and "length (sharp E img original q) < length original"
    and "readFile (wld st) (createNewFilename img) = None"
  shows "optimizeImage E saveFlag q hashes img st =
     (Next,
      \<lparr>wld = (if saveFlag \<and> map_of hashes img \<noteq> Some (sha256 E (sharp E img original q))
              then writeFile img (sharp E img original q)
                     (writeFile (createNewFilename img) original
                        ((wld st)\<lparr>probes := Suc (probes (wld st)),
                                   sharpLog := sharpLog (wld st) @ [img]\<rparr>))
              else writeFile img (sharp E img original q)
                     ((wld st)\<lparr>probes := Suc (probes (wld st)),
                                sharpLog := sharpLog (wld st) @ [img]\<rparr>)),
       assetInfo =
         (if saveFlag \<and> map_of hashes img \<noteq> Some (sha256 E (sharp E img original q))
          then AList.update (propertyKey (map_of hashes img)) True
                 (AList.update (sha256 E (sharp E img original q)) True (assetInfo st))
          else AList.update (sha256 E (sharp E img original q)) True (assetInfo st)),
       totalSaved = totalSaved st + (int (length original) - int (length (sharp E img original q)))\<rparr>)"
proof -
  let ?W = "(wld st)\<lparr>probes := Suc (probes (wld st)), sharpLog := sharpLog (wld st) @ [img]\<rparr>"
  let ?a = "normalize img" and ?b = "normalize (createNewFilename img)"
  have ne: "?b \<noteq> ?a" using assms(3,5) by (auto simp: readFile_def)
  have none: "files (wld st) ?b = None" using assms(5) by (simp add: readFile_def)
  have idem: "(files (wld st))(?b := None) = files (wld st)"
    using none by (simp add: fun_upd_idem)
  have tw: "\<And>f x y. f(?a := y, ?b := x) = f(?b := x, ?a := y)"
    using ne by (simp add: fun_upd_twist)
  have w4: "writeFile img (sharp E img original q)
              (writeFile (createNewFilename img) original (removeFile img ?W)) =
            writeFile img (sharp E img original q) (writeFile (createNewFilename img) original ?W)"
    by (simp add: writeFile_def removeFile_def tw)
  have un: "removeFile (createNewFilename img)
              (writeFile img (sharp E img original q)
                 (writeFile (createNewFilename img) original ?W)) =
            writeFile img (sharp E img original q) ?W"
    by (simp add: writeFile_def removeFile_def tw idem)
  have r2: "readFile ?W (createNewFilename img) = None" "readFile ?W img = Some original"
    using assms(3,5) by (simp_all add: readFile_def)
  have ch: "calculateHash E
      (writeFile img (sharp E img original q) (writeFile (createNewFilename img) original ?W)) img
      = Inr (sha256 E (sharp E img original q))"
    by (simp add: calculateHash_def readFile_writeFile)
  show ?thesis
    using assms
    by (simp add: optimizeImage_def Let_def readFile_other_fields w4 un ch)
qed

lemma optimizeImage_Next_cases:
  assumes "optimizeImage E saveFlag q hashes img st = (Next, st')"
  obtains (skip) "isSet (assetInfo st) (propertyKey (map_of hashes img))" "st' = st"
  | (notImproved) original where
      "\<not> isSet (assetInfo st) (propertyKey (map_of hashes img))"
      "isAvailable E (probes (wld st))" "readFile (wld st) img = Some original"
      "length original \<le> length (sharp E img original q)"
      "st' = st\<lparr>wld := (wld st)\<lparr>probes := Suc (probes (wld st)),
                                  sharpLog := sharpLog (wld st) @ [img]\<rparr>,
                assetInfo := AList.update (propertyKey (map_of hashes img)) True (assetInfo st)\<rparr>"
  | (improved) original where
      "\<not> isSet (assetInfo st) (propertyKey (map_of hashes img))"
      "isAvailable E (probes (wld st))" "readFile (wld st) img = Some original"
      "length (sharp E img original q) < length original"
      "readFile (wld st) (createNewFilename img) = None"
      "st' = \<lparr>wld = (if saveFlag \<and> map_of hashes img \<noteq> Some (sha256 E (sharp E img original q))
              then writeFile img (sharp E img original q)
                     (writeFile (createNewFilename img) original
                        ((wld st)\<lparr>probes := Suc (probes (wld st)),
                                   sharpLog := sharpLog (wld st) @ [img]\<rparr>))
              else writeFile img (sharp E img original q)
                     ((wld st)\<lparr>probes := Suc (probes (wld st)),
                                sharpLog := sharpLog (wld st) @ [img]\<rparr>)),
       assetInfo =
         (if saveFlag \<and> map_of hashes img \<noteq> Some (sha256 E (sharp E img original q))
          then AList.update (propertyKey (map_of hashes img)) True
                 (AList.update (sha256 E (sharp E img original q)) True (assetInfo st))
          else AList.update (sha256 E (sharp E img original q)) True (assetInfo st)),
       totalSaved = totalSaved st + (int (length original) - int (length (sharp E img original q)))\<rparr>"
proof (cases "isSet (assetInfo st) (propertyKey (map_of hashes img))")
  case True
  from assms True have "st' = st" by (simp add: optimizeImage_skip)
  with True show ?thesis by (rule skip)
next
  case ns: False
  show ?thesis
  proof (cases "isAvailable E (probes (wld st))")
    case False
    with assms ns show ?thesis by (simp add: optimizeImage_unavailable)
  next
    case av: True
    show ?thesis
    proof (cases "readFile (wld st) img")
      case None
      with assms ns av show ?thesis by (simp add: optimizeImage_missing)
    next
      case (Some original)
      show ?thesis
      proof (cases "length (sharp E img original q) < length original")
        case False
        then have le: "length original \<le> length (sharp E img original q)" by simp
        from assms optimizeImage_notImproved [OF ns av Some le, of saveFlag]
        have "st' = st\<lparr>wld := (wld st)\<lparr>probes := Suc (probes (wld st)),
                                  sharpLog := sharpLog (wld st) @ [img]\<rparr>,
                assetInfo := AList.update (propertyKey (map_of hashes img)) True (assetInfo st)\<rparr>"
          by simp
        then show ?thesis by (rule notImproved [OF ns av Some le])
      next
        case lt: True
        show ?thesis
        proof (cases "readFile (wld st) (createNewFilename img)")
          case None
          from assms optimizeImage_improved [OF ns av Some lt None, of saveFlag]
          show ?thesis by (intro improved [OF ns av Some lt None]) simp
        next
          case (Some b)
          then have "readFile (wld st) (createNewFilename img) \<noteq> None" by simp
          from assms optimizeImage_destExists [OF ns av \<open>readFile (wld st) img = Some original\<close> lt this, of saveFlag]
          show ?thesis by simp
        qed
      qed
    qed
  qed
qed

lemma isSet_update: "isSet (AList.update k True a) k' = (k' = k \<or> isSet a k')"
  by (auto simp: isSet_def update_conv')

lemma optimizeImage_stateFile:
  "optimizeImage E saveFlag q hashes img st = (c, st') \<Longrightarrow>
   stateFile (wld st') = stateFile (wld st)"
  by (auto simp: optimizeImage_def Let_def calculateHash_def writeFile_fields removeFile_fields
      readFile_other_fields split: option.splits if_splits)

lemma optimizeImage_pendingWrite:
  "optimizeImage E saveFlag q hashes img st = (c, st') \<Longrightarrow>
   pendingWrite (wld st') = pendingWrite (wld st)"
  by (auto simp: optimizeImage_def Let_def calculateHash_def writeFile_fields removeFile_fields
      readFile_other_fields split: option.splits if_splits)

lemma optimizeImage_isSet_mono:
  "optimizeImage E saveFlag q hashes img st = (c, st') \<Longrightarrow>
   isSet (assetInfo st) k \<Longrightarrow> isSet (assetInfo st') k"
  by (auto simp: optimizeImage_def Let_def calculateHash_def isSet_update readFile_other_fields
      split: option.splits if_splits)


subsection \<open>The loop\<close>

lemma optimizeLoop_Cons:
  "optimizeImage E saveFlag q hashes img st = (c, st1) \<Longrightarrow>
   optimizeLoop E saveFlag q hashes (img # images) st =
     (if c = Next then optimizeLoop E saveFlag q hashes images st1 else (c, st1))"
  by (cases c) simp_all

lemma optimizeLoop_stateFile:
  "optimizeLoop E saveFlag q hashes images st = (c, st') \<Longrightarrow>
   stateFile (wld st') = stateFile (wld st)"
proof (induction images arbitrary: st)
  case Nil
  then show ?case by simp
next
  case (Cons img images)
  obtain c1 st1 where step: "optimizeImage E saveFlag q hashes img st = (c1, st1)"
    by (cases "optimizeImage E saveFlag q hashes img st")
  note sf = optimizeImage_stateFile [OF step]
  show ?case
  proof (cases "c1 = Next")
    case True
    with Cons.prems(1) have "optimizeLoop E saveFlag q hashes images st1 = (c, st')"
      unfolding optimizeLoop_Cons [OF step] by simp
    from Cons.IH [OF this] sf show ?thesis by simp
  next
    case False
    with Cons.prems(1) have "st' = st1"
      unfolding optimizeLoop_Cons [OF step] by simp
    with sf show ?thesis by simp
  qed
qed

lemma optimizeLoop_pendingWrite:
  "optimizeLoop E saveFlag q hashes images st = (c, st') \<Longrightarrow>
   pendingWrite (wld st') = pendingWrite (wld st)"
proof (induction images arbitrary: st)
  case Nil
  then show ?case by simp
next
  case (Cons img images)
  obtain c1 st1 where step: "optimizeImage E saveFlag q hashes img st = (c1, st1)"
    by (cases "optimizeImage E saveFlag q hashes img st")
  note sf = optimizeImage_pendingWrite [OF step]
  show ?case
  proof (cases "c1 = Next")
    case True
    with Cons.prems(1) have "optimizeLoop E saveFlag q hashes images st1 = (c, st')"
      unfolding optimizeLoop_Cons [OF step] by simp
    from Cons.IH [OF this] sf show ?thesis by simp
  next
    case False
    with Cons.prems(1) have "st' = st1"
      unfolding optimizeLoop_Cons [OF step] by simp
    with sf show ?thesis by simp
  qed
qed

lemma optimizeLoop_Next_Cons:
  assumes "optimizeLoop E saveFlag q hashes (img # rest) st = (Next, final)"
  obtains st1 where "optimizeImage E saveFlag q hashes img st = (Next, st1)"
    and "optimizeLoop E saveFlag q hashes rest st1 = (Next, final)"
proof -
  obtain c1 st1 where step: "optimizeImage E saveFlag q hashes img st = (c1, st1)"
    by (cases "optimizeImage E saveFlag q hashes img st")
  from assms have c1: "c1 = Next"
    unfolding optimizeLoop_Cons [OF step] by (cases "c1 = Next") auto
  with assms have "optimizeLoop E saveFlag q hashes rest st1 = (Next, final)"
    unfolding optimizeLoop_Cons [OF step] by simp
  with step c1 that show ?thesis by simp
qed

lemma optimizeLoop_isSet_mono:
  "optimizeLoop E saveFlag q hashes images st = (c, st') \<Longrightarrow>
   isSet (assetInfo st) k \<Longrightarrow> isSet (assetInfo st') k"
proof (induction images arbitrary: st)
  case Nil
  then show ?case by simp
next
  case (Cons img images)
  obtain c1 st1 where step: "optimizeImage E saveFlag q hashes img st = (c1, st1)"
    by (cases "optimizeImage E saveFlag q hashes img st")
  note m = optimizeImage_isSet_mono [OF step Cons.prems(2)]
  show ?case
  proof (cases "c1 = Next")
    case True
    with Cons.prems(1) have "optimizeLoop E saveFlag q hashes images st1 = (c, st')"
      unfolding optimizeLoop_Cons [OF step] by simp
    from Cons.IH [OF this m] show ?thesis .
  next
    case False
    with Cons.prems(1) have "st' = st1"
      unfolding optimizeLoop_Cons [OF step] by simp
    with m show ?thesis by simp
  qed
qed

lemma optimizeLoop_all_set:
  "\<forall>img\<in>set images. isSet (assetInfo st) (propertyKey (map_of hashes img)) \<Longrightarrow>
   optimizeLoop E saveFlag q hashes images st = (Next, st)"
  by (induction images) (simp_all add: optimizeImage_skip)


subsection \<open>Reading the state, hashing and eviction\<close>

lemma readAssetJsonAsync_world:
  "files (fst (readAssetJsonAsync w)) = files w"
  "probes (fst (readAssetJsonAsync w)) = probes w"
  "sharpLog (fst (readAssetJsonAsync w)) = sharpLog w"
  "stateFile (fst (readAssetJsonAsync w)) = Some (Some (snd (readAssetJsonAsync w)))"
  "pendingWrite (fst (readAssetJsonAsync w)) = pendingWrite w"
  "readFile (fst (readAssetJsonAsync w)) = readFile w"
  by (auto simp: readAssetJsonAsync_def ensureDirSync_def Let_def readFile_def fun_eq_iff
      split: option.splits)

lemma readAssetJsonAsync_loaded:
  "snd (readAssetJsonAsync w) = (case stateFile w of Some (Some s) \<Rightarrow> s | _ \<Rightarrow> [])"
  by (auto simp: readAssetJsonAsync_def ensureDirSync_def Let_def split: option.splits)

lemma hashAll_readable:
  assumes "\<forall>f\<in>set fs. readFile w f \<noteq> None"
  shows "\<exists>od' hs'. hashAll E w a fs (od, hs) = Inr (od', hs') \<and>
     set od' = {h \<in> set od. \<not> (isSet a h \<and> h \<in> contentHash E w ` set fs)} \<and>
     (\<forall>f. map_of hs' f = (if f \<in> set fs then Some (contentHash E w f) else map_of hs f))"
  using assms
proof (induction fs arbitrary: od hs)
  case Nil
  then show ?case by simp
next
  case (Cons f fs)
  from Cons.prems obtain b where b: "readFile w f = Some b" by auto
  let ?h = "sha256 E b"
  let ?od = "if isSet a ?h then removeAll ?h od else od"
  let ?hs = "AList.update f ?h hs"
  from Cons.prems have "\<forall>f\<in>set fs. readFile w f \<noteq> None" by simp
  from Cons.IH [OF this, of ?od ?hs] obtain od' hs' where r:
    "hashAll E w a fs (?od, ?hs) = Inr (od', hs')"
    "set od' = {h \<in> set ?od. \<not> (isSet a h \<and> h \<in> contentHash E w ` set fs)}"
    "\<forall>g. map_of hs' g = (if g \<in> set fs then Some (contentHash E w g) else map_of ?hs g)"
    by blast
  have ch: "contentHash E w f = ?h" by (simp add: contentHash_def b)
  have 1: "hashAll E w a (f # fs) (od, hs) = Inr (od', hs')"
    using r(1) b by (simp add: calculateHash_def)
  have 2: "set od' = {h \<in> set od. \<not> (isSet a h \<and> h \<in> contentHash E w ` set (f # fs))}"
    unfolding r(2) using ch by auto
  have 3: "\<forall>g. map_of hs' g = (if g \<in> set (f # fs) then Some (contentHash E w g) else map_of hs g)"
    using r(3) ch by (auto simp: update_conv')
  from 1 2 3 show ?case by blast
qed

lemma hashAll_Inr_readable:
  "hashAll E w a fs acc = Inr r \<Longrightarrow> \<forall>f\<in>set fs. readFile w f \<noteq> None"
proof (induction fs arbitrary: acc)
  case Nil
  then show ?case by simp
next
  case (Cons f fs)
  obtain od hs where acc: "acc = (od, hs)" by (cases acc)
  from Cons.prems acc obtain b where b: "readFile w f = Some b"
    by (cases "readFile w f") (auto simp: calculateHash_def)
  from Cons.prems acc b have "\<exists>acc'. hashAll E w a fs acc' = Inr r"
    by (auto simp: calculateHash_def)
  with Cons.IH b show ?case by auto
qed

lemma deleteOutdated_map_of:
  "map_of (deleteOutdated ks a) k = (if k \<in> set ks then None else map_of a k)"
  unfolding deleteOutdated_def
  by (induction ks arbitrary: a) (auto simp: delete_conv')

lemma evicted_map_of:
  assumes "set od' = {h \<in> set (map fst a). \<not> (isSet a h \<and> h \<in> H)}"
  shows "map_of (deleteOutdated od' a) k = (if isSet a k \<and> k \<in> H then Some True else None)"
proof (cases "isSet a k \<and> k \<in> H")
  case True
  then have "k \<notin> set od'" using assms by simp
  with True show ?thesis by (simp add: deleteOutdated_map_of isSet_def)
next
  case False
  show ?thesis
  proof (cases "k \<in> fst ` set a")
    case True
    with False have "k \<in> set od'" using assms by simp
    with False show ?thesis by (simp add: deleteOutdated_map_of)
  next
    case nk: False
    then have "map_of a k = None" by (simp add: map_of_eq_None_iff)
    with False show ?thesis by (simp add: deleteOutdated_map_of)
  qed
qed

lemma getAssetFilesAsync_files:
  "files w' = files w \<Longrightarrow> getAssetFilesAsync E w' d options = getAssetFilesAsync E w d options"
  by (simp add: getAssetFilesAsync_def discovered_def cong: if_cong)

lemma contentHash_files: "files w' = files w \<Longrightarrow> contentHash E w' f = contentHash E w f"
  by (simp add: contentHash_def readFile_def)

lemma optimizeAsync_unfold:
  assumes readable: "\<forall>f\<in>set (allCandidates E w d options). readFile w f \<noteq> None"
  shows "\<exists>hs a1.
     (\<forall>f. map_of hs f =
        (if f \<in> set (allCandidates E w d options) then Some (contentHash E w f) else None)) \<and>
     (\<forall>k. map_of a1 k =
        (if isSet (snd (readAssetJsonAsync w)) k \<and>
            k \<in> contentHash E w ` set (allCandidates E w d options)
         then Some True else None)) \<and>
     optimizeAsync E w d options =
       writeAfterLoop
         (optimizeLoop E (truthyBool (save options)) (qualityOf options) hs (workingFiles E w d options)
            \<lparr>wld = fst (readAssetJsonAsync w), assetInfo = a1, totalSaved = 0\<rparr>)"
proof -
  obtain w1 loaded where rd: "readAssetJsonAsync w = (w1, loaded)"
    by (cases "readAssetJsonAsync w")
  have fw: "files w1 = files w" using readAssetJsonAsync_world(1) [of w] rd by simp
  have found: "getAssetFilesAsync E w1 d options = getAssetFilesAsync E w d options"
    using fw by (rule getAssetFilesAsync_files)
  have r1: "\<forall>f\<in>set (allCandidates E w d options). readFile w1 f \<noteq> None"
    using readable fw by (simp add: readFile_def)
  from hashAll_readable [OF r1, of E loaded "map fst loaded" "[]"]
  obtain od' hs where h:
    "hashAll E w1 loaded (allCandidates E w d options) (map fst loaded, []) = Inr (od', hs)"
    "set od' = {h \<in> set (map fst loaded).
                 \<not> (isSet loaded h \<and> h \<in> contentHash E w1 ` set (allCandidates E w d options))}"
    "\<forall>f. map_of hs f =
       (if f \<in> set (allCandidates E w d options) then Some (contentHash E w1 f) else map_of [] f)"
    by blast
  have ch: "contentHash E w1 = contentHash E w"
    using fw by (simp add: fun_eq_iff contentHash_files)
  have p1: "\<forall>f. map_of hs f =
        (if f \<in> set (allCandidates E w d options) then Some (contentHash E w f) else None)"
    using h(3) ch by simp
  have p2: "\<forall>k. map_of (deleteOutdated od' loaded) k =
        (if isSet loaded k \<and> k \<in> contentHash E w ` set (allCandidates E w d options)
         then Some True else None)"
    using evicted_map_of [OF h(2)] ch by simp
  obtain c st where L:
    "optimizeLoop E (truthyBool (save options)) (qualityOf options) hs (workingFiles E w d options)
       \<lparr>wld = w1, assetInfo = deleteOutdated od' loaded, totalSaved = 0\<rparr> = (c, st)"
    by (cases "optimizeLoop E (truthyBool (save options)) (qualityOf options) hs
        (workingFiles E w d options)
        \<lparr>wld = w1, assetInfo = deleteOutdated od' loaded, totalSaved = 0\<rparr>")
  have h1: "hashAll E w1 loaded (fst (getAssetFilesAsync E w d options)) (map fst loaded, []) =
      Inr (od', hs)"
    using h(1) by (simp add: allCandidates_def)
  have L1: "optimizeLoop E (truthyBool (save options))
       (case quality options of None \<Rightarrow> 80 | Some n \<Rightarrow> n) hs
       (workingSet options (getAssetFilesAsync E w d options))
       \<lparr>wld = w1, assetInfo = deleteOutdated od' loaded, totalSaved = 0\<rparr> = (c, st)"
    using L by (simp add: workingFiles_def qualityOf_def)
  have "optimizeAsync E w d options = writeAfterLoop (c, st)"
    unfolding optimizeAsync_def rd
    by (cases c) (simp_all add: Let_def found h1 L1 writeAfterLoop_def)
  then have p3: "optimizeAsync E w d options =
       writeAfterLoop
         (optimizeLoop E (truthyBool (save options)) (qualityOf options) hs (workingFiles E w d options)
            \<lparr>wld = fst (readAssetJsonAsync w), assetInfo = deleteOutdated od' loaded,
               totalSaved = 0\<rparr>)"
    using L rd by simp
  have l: "snd (readAssetJsonAsync w) = loaded" using rd by simp
  show ?thesis
    unfolding l using p1 p2 p3 by (intro exI [of _ hs] exI [of _ "deleteOutdated od' loaded"] conjI)
qed

subsection \<open>The state file is written only after the loop\<close>

text \<open>
  Claim C1, as stated: after an abort the changes made in memory are committed. Here
  the first image is finalized, the probe fails at the second image, and the call
  returns with \<open>#aaaa\<close> finalized and \<open>#gone\<close> evicted in memory; no write has been
  started, and \<open>assets.json\<close> holds what it held before the call.
\<close>

theorem optimizeAsync_abort_counterexample:
  "fst (optimizeAsync abortEnv abortWorld ''/p'' noOptions) = EarlyReturn \<and>
   assetInfo (snd (optimizeAsync abortEnv abortWorld ''/p'' noOptions)) = [(''#aaaa'', True)] \<and>
   pendingWrite (wld (snd (optimizeAsync abortEnv abortWorld ''/p'' noOptions))) = None \<and>
   stateFile (settle (wld (snd (optimizeAsync abortEnv abortWorld ''/p'' noOptions)))) =
     Some (Some [(''#gone'', True)])"
  by (simp add: eval_run eval_select abortEnv_def abortWorld_def settle_def)

lemma hashAll_unreadable:
  "\<exists>f\<in>set fs. readFile w f = None \<Longrightarrow> hashAll E w a fs acc = Inl IOError"
proof (induction fs arbitrary: acc)
  case Nil
  then show ?case by simp
next
  case (Cons f fs)
  obtain od hs where acc: "acc = (od, hs)" by (cases acc)
  show ?case
  proof (cases "readFile w f")
    case None
    then show ?thesis by (simp add: acc calculateHash_def)
  next
    case (Some b)
    with Cons.prems have "\<exists>f\<in>set fs. readFile w f = None" by auto
    from Cons.IH [OF this] Some show ?thesis by (simp add: acc calculateHash_def)
  qed
qed

lemma optimizeAsync_unreadable:
  assumes "\<exists>f\<in>set (allCandidates E w d options). readFile w f = None"
  shows "optimizeAsync E w d options =
     (Throw IOError, \<lparr>wld = fst (readAssetJsonAsync w),
                       assetInfo = snd (readAssetJsonAsync w), totalSaved = 0\<rparr>)"
proof -
  obtain w1 loaded where rd: "readAssetJsonAsync w = (w1, loaded)"
    by (cases "readAssetJsonAsync w")
  have fw: "files w1 = files w" using readAssetJsonAsync_world(1) [of w] rd by simp
  have found: "getAssetFilesAsync E w1 d options = getAssetFilesAsync E w d options"
    using fw by (rule getAssetFilesAsync_files)
  have "\<exists>f\<in>set (fst (getAssetFilesAsync E w d options)). readFile w1 f = None"
    using assms fw by (simp add: allCandidates_def readFile_def)
  from hashAll_unreadable [OF this]
  have "hashAll E w1 loaded (fst (getAssetFilesAsync E w d options)) (map fst loaded, []) =
      Inl IOError" .
  then show ?thesis
    unfolding optimizeAsync_def rd by (simp add: Let_def found)
qed

lemma writeAfterLoop_simps:
  "writeAfterLoop (Next, st) = (Next, st\<lparr>wld := (wld st)\<lparr>pendingWrite := Some (assetInfo st)\<rparr>\<rparr>)"
  "writeAfterLoop (EarlyReturn, st) = (EarlyReturn, st)"
  "writeAfterLoop (Throw e, st) = (Throw e, st)"
  by (simp_all add: writeAfterLoop_def)

lemma writeAfterLoop_fields:
  "fst (writeAfterLoop r) = fst r"
  "sharpLog (wld (snd (writeAfterLoop r))) = sharpLog (wld (snd r))"
  "probes (wld (snd (writeAfterLoop r))) = probes (wld (snd r))"
  "files (wld (snd (writeAfterLoop r))) = files (wld (snd r))"
  "stateFile (wld (snd (writeAfterLoop r))) = stateFile (wld (snd r))"
  "assetInfo (snd (writeAfterLoop r)) = assetInfo (snd r)"
  "totalSaved (snd (writeAfterLoop r)) = totalSaved (snd r)"
  by (cases r; cases "fst r"; simp add: writeAfterLoop_def)+

text \<open>
  Claim C1, amended. The \<open>return\<close> taken when the compressor is not available leaves
  the function before its last statement, and so does an exception: in both cases no
  write of \<open>assets.json\<close> is started, and no eviction or finalization of the call
  reaches the file. In every case the file holds, when the call returns, what was
  loaded (the object it held before, or the empty object written when it was missing).
  Only a call whose loop runs to its end starts a write, of the state it has in
  memory, which keeps every loaded hash that is set and is the hash of a candidate;
  the file holds that state once the write, which is not awaited, has completed.
\<close>

theorem optimizeAsync_commit_only_after_loop:
  "stateFile (wld (snd (optimizeAsync E w d options))) =
     Some (Some (case stateFile w of Some (Some s) \<Rightarrow> s | _ \<Rightarrow> [])) \<and>
   (fst (optimizeAsync E w d options) \<noteq> Next \<longrightarrow>
      pendingWrite (wld (snd (optimizeAsync E w d options))) = pendingWrite w) \<and>
   (fst (optimizeAsync E w d options) = Next \<longrightarrow>
      pendingWrite (wld (snd (optimizeAsync E w d options))) =
        Some (assetInfo (snd (optimizeAsync E w d options))) \<and>
      stateFile (settle (wld (snd (optimizeAsync E w d options)))) =
        Some (Some (assetInfo (snd (optimizeAsync E w d options)))) \<and>
      (\<forall>k. isSet (case stateFile w of Some (Some s) \<Rightarrow> s | _ \<Rightarrow> []) k \<and>
           k \<in> contentHash E w ` set (allCandidates E w d options) \<longrightarrow>
           isSet (assetInfo (snd (optimizeAsync E w d options))) k))"
proof (cases "\<forall>f\<in>set (allCandidates E w d options). readFile w f \<noteq> None")
  case False
  then have "\<exists>f\<in>set (allCandidates E w d options). readFile w f = None" by simp
  from optimizeAsync_unreadable [OF this] show ?thesis
    by (simp add: readAssetJsonAsync_world readAssetJsonAsync_loaded)
next
  case True
  from optimizeAsync_unfold [OF True] obtain hs a1 where u:
    "\<forall>k. map_of a1 k =
        (if isSet (snd (readAssetJsonAsync w)) k \<and>
            k \<in> contentHash E w ` set (allCandidates E w d options)
         then Some True else None)"
    "optimizeAsync E w d options =
       writeAfterLoop
         (optimizeLoop E (truthyBool (save options)) (qualityOf options) hs
            (workingFiles E w d options)
            \<lparr>wld = fst (readAssetJsonAsync w), assetInfo = a1, totalSaved = 0\<rparr>)"
    by blast
  let ?st0 = "\<lparr>wld = fst (readAssetJsonAsync w), assetInfo = a1, totalSaved = 0\<rparr>"
  obtain c st where L:
    "optimizeLoop E (truthyBool (save options)) (qualityOf options) hs
            (workingFiles E w d options) ?st0 = (c, st)"
    by (cases "optimizeLoop E (truthyBool (save options)) (qualityOf options) hs
            (workingFiles E w d options) ?st0")
  from optimizeLoop_stateFile [OF L]
  have sf: "stateFile (wld st) = Some (Some (case stateFile w of Some (Some s) \<Rightarrow> s | _ \<Rightarrow> []))"
    by (simp add: readAssetJsonAsync_world readAssetJsonAsync_loaded)
  from optimizeLoop_pendingWrite [OF L]
  have pw: "pendingWrite (wld st) = pendingWrite w"
    by (simp add: readAssetJsonAsync_world)
  have keep: "\<forall>k. isSet (case stateFile w of Some (Some s) \<Rightarrow> s | _ \<Rightarrow> []) k \<and>
           k \<in> contentHash E w ` set (allCandidates E w d options) \<longrightarrow> isSet (assetInfo st) k"
  proof (intro allI impI)
    fix k
    assume "isSet (case stateFile w of Some (Some s) \<Rightarrow> s | _ \<Rightarrow> []) k \<and>
           k \<in> contentHash E w ` set (allCandidates E w d options)"
    then have "isSet (assetInfo ?st0) k"
      using u(1) by (simp add: isSet_def readAssetJsonAsync_loaded)
    from optimizeLoop_isSet_mono [OF L this] show "isSet (assetInfo st) k" .
  qed
  show ?thesis
    unfolding u(2) L using sf pw keep
    by (cases c) (simp_all add: writeAfterLoop_simps settle_def)
qed

theorem optimizeAsync_commit_only_after_loop_witness:
  "fst (optimizeAsync abortEnv abortWorld ''/p'' noOptions) = EarlyReturn \<and>
   pendingWrite (wld (snd (optimizeAsync abortEnv abortWorld ''/p'' noOptions))) = None \<and>
   fst (optimizeAsync oneImageEnv takenWorld ''/p'' noOptions) = Throw IOError \<and>
   sharpLog (wld (snd (optimizeAsync oneImageEnv takenWorld ''/p'' noOptions))) = [''/p/a.png''] \<and>
   pendingWrite (wld (snd (optimizeAsync oneImageEnv takenWorld ''/p'' noOptions))) = None \<and>
   stateFile (wld (snd (optimizeAsync oneImageEnv takenWorld ''/p'' noOptions))) =
     Some (Some [(''#gone'', True)]) \<and>
   fst (optimizeAsync finishEnv abortWorld ''/p'' noOptions) = Next \<and>
   assetInfo (snd (optimizeAsync finishEnv abortWorld ''/p'' noOptions)) =
     [(''#aaaa'', True), (''#bbbb'', True)] \<and>
   stateFile (wld (snd (optimizeAsync finishEnv abortWorld ''/p'' noOptions))) =
     Some (Some [(''#gone'', True)]) \<and>
   stateFile (settle (wld (snd (optimizeAsync finishEnv abortWorld ''/p'' noOptions)))) =
     Some (Some [(''#aaaa'', True), (''#bbbb'', True)])"
proof -
  note t = optimizeAsync_commit_only_after_loop [of abortEnv abortWorld "''/p''" noOptions]
  note u = optimizeAsync_commit_only_after_loop [of oneImageEnv takenWorld "''/p''" noOptions]
  note v = optimizeAsync_commit_only_after_loop [of finishEnv abortWorld "''/p''" noOptions]
  have a: "fst (optimizeAsync abortEnv abortWorld ''/p'' noOptions) = EarlyReturn"
    by (simp add: eval_run eval_select abortEnv_def abortWorld_def)
  then have a0: "fst (optimizeAsync abortEnv abortWorld ''/p'' noOptions) \<noteq> Next" by simp
  have a': "pendingWrite (wld (snd (optimizeAsync abortEnv abortWorld ''/p'' noOptions))) = None"
    using t [THEN conjunct2, THEN conjunct1, rule_format, OF a0] by (simp add: abortWorld_def)
  have b: "fst (optimizeAsync oneImageEnv takenWorld ''/p'' noOptions) = Throw IOError"
    by (simp add: eval_run eval_select eval_backup oneImageEnv_def takenWorld_def)
  then have b0: "fst (optimizeAsync oneImageEnv takenWorld ''/p'' noOptions) \<noteq> Next" by simp
  have bl: "sharpLog (wld (snd (optimizeAsync oneImageEnv takenWorld ''/p'' noOptions))) =
      [''/p/a.png'']"
    by (simp add: eval_run eval_select eval_backup oneImageEnv_def takenWorld_def)
  have b': "pendingWrite (wld (snd (optimizeAsync oneImageEnv takenWorld ''/p'' noOptions))) = None"
    using u [THEN conjunct2, THEN conjunct1, rule_format, OF b0] by (simp add: takenWorld_def)
  have b'': "stateFile (wld (snd (optimizeAsync oneImageEnv takenWorld ''/p'' noOptions))) =
     Some (Some [(''#gone'', True)])"
    using u [THEN conjunct1] by (simp add: takenWorld_def)
  have c: "fst (optimizeAsync finishEnv abortWorld ''/p'' noOptions) = Next"
    by (simp add: eval_run eval_select finishEnv_def abortEnv_def abortWorld_def)
  have ca: "assetInfo (snd (optimizeAsync finishEnv abortWorld ''/p'' noOptions)) =
     [(''#aaaa'', True), (''#bbbb'', True)]"
    by (simp add: eval_run eval_select finishEnv_def abortEnv_def abortWorld_def)
  have c': "stateFile (wld (snd (optimizeAsync finishEnv abortWorld ''/p'' noOptions))) =
     Some (Some [(''#gone'', True)])"
    using v [THEN conjunct1] by (simp add: abortWorld_def)
  have c'': "stateFile (settle (wld (snd (optimizeAsync finishEnv abortWorld ''/p'' noOptions)))) =
     Some (Some [(''#aaaa'', True), (''#bbbb'', True)])"
    using v [THEN conjunct2, THEN conjunct2, rule_format, OF c, THEN conjunct2, THEN conjunct1] ca
    by simp
  from a a' b bl b' b'' c ca c' c'' show ?thesis by (intro conjI)
qed

subsection \<open>Files whose content is finalized\<close>


text \<open>
  When every candidate can be read and every file of the working set is a candidate
  whose content hash is set in the loaded state, the loop only skips: no probe, no
  compression, and a write is started of the loaded state without its outdated hashes.
\<close>

lemma all_finalized_run:
  assumes readable: "\<forall>f\<in>set (allCandidates E w d options). readFile w f \<noteq> None"
    and fin: "\<forall>img\<in>set (workingFiles E w d options).
        img \<in> set (allCandidates E w d options) \<and>
        isSet (snd (readAssetJsonAsync w)) (contentHash E w img)"
  shows "\<exists>a1.
      (\<forall>k. map_of a1 k =
        (if isSet (snd (readAssetJsonAsync w)) k \<and>
            k \<in> contentHash E w ` set (allCandidates E w d options)
         then Some True else None)) \<and>
      optimizeAsync E w d options =
      (Next, \<lparr>wld = (fst (readAssetJsonAsync w))\<lparr>pendingWrite := Some a1\<rparr>,
              assetInfo = a1, totalSaved = 0\<rparr>)"
proof -
  from optimizeAsync_unfold [OF readable] obtain hs a1 where u:
    "\<forall>g. map_of hs g =
        (if g \<in> set (allCandidates E w d options) then Some (contentHash E w g) else None)"
    "\<forall>k. map_of a1 k =
        (if isSet (snd (readAssetJsonAsync w)) k \<and>
            k \<in> contentHash E w ` set (allCandidates E w d options)
         then Some True else None)"
    "optimizeAsync E w d options =
       writeAfterLoop
         (optimizeLoop E (truthyBool (save options)) (qualityOf options) hs
            (workingFiles E w d options)
            \<lparr>wld = fst (readAssetJsonAsync w), assetInfo = a1, totalSaved = 0\<rparr>)"
    by blast
  let ?st0 = "\<lparr>wld = fst (readAssetJsonAsync w), assetInfo = a1, totalSaved = 0\<rparr>"
  have "\<forall>img\<in>set (workingFiles E w d options). isSet (assetInfo ?st0) (propertyKey (map_of hs img))"
  proof
    fix img assume i: "img \<in> set (workingFiles E w d options)"
    with fin have c: "img \<in> set (allCandidates E w d options)"
      and t: "isSet (snd (readAssetJsonAsync w)) (contentHash E w img)" by auto
    have "propertyKey (map_of hs img) = contentHash E w img"
      using u(1) c by (simp add: propertyKey_def)
    moreover have "contentHash E w img \<in> contentHash E w ` set (allCandidates E w d options)"
      using c by simp
    ultimately show "isSet (assetInfo ?st0) (propertyKey (map_of hs img))"
      using u(2) t by (simp add: isSet_def)
  qed
  from optimizeLoop_all_set [OF this]
  have "optimizeLoop E (truthyBool (save options)) (qualityOf options) hs
            (workingFiles E w d options) ?st0 = (Next, ?st0)" .
  then have "optimizeAsync E w d options =
      (Next, \<lparr>wld = (fst (readAssetJsonAsync w))\<lparr>pendingWrite := Some a1\<rparr>,
              assetInfo = a1, totalSaved = 0\<rparr>)"
    unfolding u(3) by (simp add: writeAfterLoop_def)
  with u(2) show ?thesis by blast
qed

text \<open>
  Claim C9: the probe is made only on reaching a candidate whose hash is not
  finalized, so a run in which every file of the working set is finalized never
  probes, never aborts and reaches the final write. The loop does test \<open>assetInfo\<close>
  before it probes, but with the hash it finds in \<open>hashes\<close>, which is filled from
  \<open>allFiles\<close> only. Here the only file of the working set, \<open>/p/other/b.png\<close>, is selected
  by the include pattern and is not in \<open>allFiles\<close>; the hash of its bytes is set in the
  loaded state and stays set after the eviction. The key looked up for it is
  \<open>undefined\<close>, so the call probes, and with no compressor it aborts without starting
  the write.
\<close>

theorem optimizeAsync_finalized_outside_candidates_probes:
  "workingFiles unavailableEnv outsideWorld ''/p'' includeOther = [''/p/other/b.png''] \<and>
   readFile outsideWorld ''/p/other/b.png'' = Some ''aaaa'' \<and>
   isSet (snd (readAssetJsonAsync outsideWorld)) (sha256 unavailableEnv ''aaaa'') \<and>
   fst (optimizeAsync unavailableEnv outsideWorld ''/p'' includeOther) = EarlyReturn \<and>
   assetInfo (snd (optimizeAsync unavailableEnv outsideWorld ''/p'' includeOther)) =
     [(''#aaaa'', True)] \<and>
   probes (wld (snd (optimizeAsync unavailableEnv outsideWorld ''/p'' includeOther))) = 1 \<and>
   pendingWrite (wld (snd (optimizeAsync unavailableEnv outsideWorld ''/p'' includeOther))) = None"
  by (simp add: workingFiles_def eval_select eval_run unavailableEnv_def outsideEnv_def
      outsideWorld_def includeOther_def)

text \<open>
  Claim C7: the content hash is a function of the bytes alone, two files with the same
  bytes are one entry of the state, and a file whose bytes are finalized is not
  compressed again under another path. \<open>calculateHash\<close> does depend on the bytes only,
  and the state is keyed by the hash. But the loop does not hash the file it is about
  to compress: it reads \<open>hashes[image]\<close>, filled from \<open>allFiles\<close> only. Here
  \<open>/p/other/b.png\<close> has the bytes of \<open>/p/assets/a.png\<close>, whose hash is set in
  \<open>assets.json\<close> (a copy, or the file itself moved and found by the include pattern).
  It is selected by the include pattern, is not in \<open>allFiles\<close>, and is probed for and
  compressed.
\<close>

theorem content_hash_outside_candidates_recompressed:
  "readFile outsideWorld ''/p/assets/a.png'' = Some ''aaaa'' \<and>
   readFile outsideWorld ''/p/other/b.png'' = Some ''aaaa'' \<and>
   calculateHash outsideEnv outsideWorld ''/p/other/b.png'' =
     calculateHash outsideEnv outsideWorld ''/p/assets/a.png'' \<and>
   isSet (snd (readAssetJsonAsync outsideWorld)) (sha256 outsideEnv ''aaaa'') \<and>
   workingFiles outsideEnv outsideWorld ''/p'' includeOther = [''/p/other/b.png''] \<and>
   probes (wld (snd (optimizeAsync outsideEnv outsideWorld ''/p'' includeOther))) = 1 \<and>
   sharpLog (wld (snd (optimizeAsync outsideEnv outsideWorld ''/p'' includeOther))) =
     [''/p/other/b.png'']"
  by (simp add: workingFiles_def eval_select eval_run outsideEnv_def outsideWorld_def
      includeOther_def)

subsection \<open>Files selected outside the candidates\<close>

text \<open>
  Claim C3: a second run on an unchanged file tree saves no bytes and does not call
  the compressor, because every hash is finalized and the loop skips. Here the first
  run compresses \<open>/p/other/b.png\<close>, which is selected by the include pattern and is not
  in \<open>allFiles\<close>, finds it no smaller and finalizes the key \<open>undefined\<close> instead of
  the hash of the file. The tree is unchanged. The second run, on the world where the
  write of the first has completed, evicts \<open>undefined\<close> and compresses the file again.
\<close>

theorem optimizeAsync_second_run_recompresses:
  "fst (optimizeAsync outsideEnv freshWorld ''/p'' includeOther) = Next \<and>
   files (wld (snd (optimizeAsync outsideEnv freshWorld ''/p'' includeOther))) = files freshWorld \<and>
   sharpLog (wld (snd (optimizeAsync outsideEnv freshWorld ''/p'' includeOther))) =
     [''/p/other/b.png''] \<and>
   stateFile (settle (wld (snd (optimizeAsync outsideEnv freshWorld ''/p'' includeOther)))) =
     Some (Some [(''undefined'', True)]) \<and>
   fst (optimizeAsync outsideEnv
          (settle (wld (snd (optimizeAsync outsideEnv freshWorld ''/p'' includeOther))))
          ''/p'' includeOther) = Next \<and>
   totalSaved (snd (optimizeAsync outsideEnv
          (settle (wld (snd (optimizeAsync outsideEnv freshWorld ''/p'' includeOther))))
          ''/p'' includeOther)) = 0 \<and>
   probes (wld (snd (optimizeAsync outsideEnv
          (settle (wld (snd (optimizeAsync outsideEnv freshWorld ''/p'' includeOther))))
          ''/p'' includeOther))) = 2 \<and>
   sharpLog (wld (snd (optimizeAsync outsideEnv
          (settle (wld (snd (optimizeAsync outsideEnv freshWorld ''/p'' includeOther))))
          ''/p'' includeOther))) = [''/p/other/b.png'', ''/p/other/b.png'']"
  by (simp add: eval_select eval_run settle_def outsideEnv_def freshWorld_def includeOther_def)

text \<open>
  Claim C4: a compressed candidate with savings is replaced and the hash of its new
  bytes finalized; without savings the file is left as it was and the hash of its
  content is finalized, so that later runs skip it. Here \<open>/p/other/b.png\<close> is
  compressed without savings and left as it was, but what the code finalizes is
  \<open>hashes[image]\<close>, which is \<open>undefined\<close> for a file selected outside \<open>allFiles\<close>: the
  state that is written has the key \<open>undefined\<close> and not the hash of the file.
\<close>

theorem optimizeAsync_not_improved_finalizes_undefined:
  "sharpLog (wld (snd (optimizeAsync outsideEnv freshWorld ''/p'' includeOther))) =
     [''/p/other/b.png''] \<and>
   length (sharp outsideEnv ''/p/other/b.png'' ''bbbbbb'' 80) = length ''bbbbbb'' \<and>
   readFile (wld (snd (optimizeAsync outsideEnv freshWorld ''/p'' includeOther)))
     ''/p/other/b.png'' = Some ''bbbbbb'' \<and>
   pendingWrite (wld (snd (optimizeAsync outsideEnv freshWorld ''/p'' includeOther))) =
     Some [(''undefined'', True)] \<and>
   \<not> isSet (assetInfo (snd (optimizeAsync outsideEnv freshWorld ''/p'' includeOther)))
         (sha256 outsideEnv ''bbbbbb'')"
  by (simp add: eval_select eval_run outsideEnv_def freshWorld_def includeOther_def)

text \<open>
  Claim C5: after an improving compression whose hash differs from the original one,
  with \<open>save\<close> the backup \<open>name.orig.ext\<close> holds the original bytes and the original hash
  is finalized too; without \<open>save\<close> no backup remains. Here, with \<open>save\<close>,
  \<open>/p/other/b.png\<close> is replaced by smaller bytes and its backup holds the original
  bytes, but the hash finalized with it is \<open>hashes[image]\<close>, which is \<open>undefined\<close> for a
  file selected outside \<open>allFiles\<close>: the hash of the original bytes is not set.
\<close>

theorem optimizeAsync_save_finalizes_undefined:
  "fst (optimizeAsync shrinkEnv freshWorld ''/p'' includeOtherSave) = Next \<and>
   readFile (wld (snd (optimizeAsync shrinkEnv freshWorld ''/p'' includeOtherSave)))
     ''/p/other/b.png'' = Some ''bbbb'' \<and>
   createNewFilename ''/p/other/b.png'' = ''/p/other/b.orig.png'' \<and>
   readFile (wld (snd (optimizeAsync shrinkEnv freshWorld ''/p'' includeOtherSave)))
     ''/p/other/b.orig.png'' = Some ''bbbbbb'' \<and>
   pendingWrite (wld (snd (optimizeAsync shrinkEnv freshWorld ''/p'' includeOtherSave))) =
     Some [(''#bbbb'', True), (''undefined'', True)] \<and>
   \<not> isSet (assetInfo (snd (optimizeAsync shrinkEnv freshWorld ''/p'' includeOtherSave)))
         (sha256 shrinkEnv ''bbbbbb'')"
  by (simp add: eval_select eval_run eval_backup shrinkEnv_def outsideEnv_def freshWorld_def
      includeOtherSave_def includeOther_def)

subsection \<open>The backup in later runs\<close>


text \<open>\<open>savedWorld\<close> is where a run with \<open>save\<close> leaves \<open>logoWorld\<close>.\<close>

lemma savedWorld_is_saved:
  "fst (optimizeAsync saveEnv logoWorld ''/p'' saveOptions) = Next \<and>
   settle (wld (snd (optimizeAsync saveEnv logoWorld ''/p'' saveOptions))) = savedWorld"
  by (simp add: eval_select eval_run eval_backup settle_def saveEnv_def logoWorld_def
      saveOptions_def savedWorld_def fun_upd_twist)



subsection \<open>The hashes of the state that is written\<close>

lemma optimizeImage_finalized:
  assumes step: "optimizeImage E saveFlag q hashes img st = (Next, st1)"
    and rd: "readFile (wld st) img = Some b"
    and hs: "map_of hashes img = Some (sha256 E b)"
  shows "\<exists>xs. sharpLog (wld st1) = sharpLog (wld st) @ xs \<and> set xs \<subseteq> {img} \<and>
      (\<forall>k. isSet (assetInfo st1) k =
           (isSet (assetInfo st) k \<or> (\<exists>i\<in>set xs. k \<in> finalizedBy E saveFlag q img b))) \<and>
      (\<forall>r. normalize r \<noteq> normalize img \<longrightarrow> readFile (wld st) r \<noteq> None \<longrightarrow>
           readFile (wld st1) r = readFile (wld st) r)"
  using step
proof (cases rule: optimizeImage_Next_cases)
  case skip
  then have "sharpLog (wld st1) = sharpLog (wld st) @ [] \<and> set [] \<subseteq> {img} \<and>
      (\<forall>k. isSet (assetInfo st1) k =
           (isSet (assetInfo st) k \<or> (\<exists>i\<in>set []. k \<in> finalizedBy E saveFlag q img b))) \<and>
      (\<forall>r. normalize r \<noteq> normalize img \<longrightarrow> readFile (wld st) r \<noteq> None \<longrightarrow>
           readFile (wld st1) r = readFile (wld st) r)"
    by simp
  then show ?thesis by blast
next
  case (notImproved original)
  from notImproved(3) rd have o: "original = b" by simp
  have f: "finalizedBy E saveFlag q img b = {sha256 E b}"
    using notImproved(4) o by (simp add: finalizedBy_def Let_def)
  have "sharpLog (wld st1) = sharpLog (wld st) @ [img] \<and> set [img] \<subseteq> {img} \<and>
      (\<forall>k. isSet (assetInfo st1) k =
           (isSet (assetInfo st) k \<or> (\<exists>i\<in>set [img]. k \<in> finalizedBy E saveFlag q img b))) \<and>
      (\<forall>r. normalize r \<noteq> normalize img \<longrightarrow> readFile (wld st) r \<noteq> None \<longrightarrow>
           readFile (wld st1) r = readFile (wld st) r)"
    using notImproved(5) hs f
    by (auto simp: isSet_update propertyKey_def readFile_other_fields)
  then show ?thesis by blast
next
  case (improved original)
  from improved(3) rd have o: "original = b" by simp
  have lt: "length (sharp E img b q) < length b" using improved(4) o by simp
  have frame: "\<forall>r. normalize r \<noteq> normalize img \<longrightarrow> readFile (wld st) r \<noteq> None \<longrightarrow>
           readFile (wld st1) r = readFile (wld st) r"
  proof (intro allI impI)
    fix r assume r: "normalize r \<noteq> normalize img" "readFile (wld st) r \<noteq> None"
    from r(2) improved(5) have "normalize r \<noteq> normalize (createNewFilename img)"
      by (auto simp: readFile_def)
    with r(1) show "readFile (wld st1) r = readFile (wld st) r"
      by (simp add: improved(6) readFile_writeFile readFile_other_fields)
  qed
  have sets: "\<forall>k. isSet (assetInfo st1) k =
           (isSet (assetInfo st) k \<or> k \<in> finalizedBy E saveFlag q img b)"
    using lt hs o
    by (auto simp: improved(6) finalizedBy_def Let_def isSet_update propertyKey_def)
  have "sharpLog (wld st1) = sharpLog (wld st) @ [img]"
    by (simp add: improved(6) writeFile_fields)
  with sets frame have "sharpLog (wld st1) = sharpLog (wld st) @ [img] \<and> set [img] \<subseteq> {img} \<and>
      (\<forall>k. isSet (assetInfo st1) k =
           (isSet (assetInfo st) k \<or> (\<exists>i\<in>set [img]. k \<in> finalizedBy E saveFlag q img b))) \<and>
      (\<forall>r. normalize r \<noteq> normalize img \<longrightarrow> readFile (wld st) r \<noteq> None \<longrightarrow>
           readFile (wld st1) r = readFile (wld st) r)"
    by simp
  then show ?thesis by blast
qed

lemma optimizeLoop_finalized:
  assumes "optimizeLoop E saveFlag q hashes imgs st = (Next, final)"
    and "\<forall>img\<in>set imgs. readFile (wld st) img = Some (c img) \<and>
           map_of hashes img = Some (sha256 E (c img))"
    and "distinct (map normalize imgs)"
  shows "\<exists>ys. sharpLog (wld final) = sharpLog (wld st) @ ys \<and> set ys \<subseteq> set imgs \<and>
      (\<forall>k. isSet (assetInfo final) k =
           (isSet (assetInfo st) k \<or>
            (\<exists>img\<in>set ys. k \<in> finalizedBy E saveFlag q img (c img))))"
  using assms
proof (induction imgs arbitrary: st)
  case Nil
  then have "sharpLog (wld final) = sharpLog (wld st) @ [] \<and> set [] \<subseteq> set ([] :: path list) \<and>
      (\<forall>k. isSet (assetInfo final) k =
           (isSet (assetInfo st) k \<or>
            (\<exists>img\<in>set []. k \<in> finalizedBy E saveFlag q img (c img))))"
    by simp
  then show ?case by blast
next
  case (Cons head rest)
  from Cons.prems(1) obtain st1 where s:
    "optimizeImage E saveFlag q hashes head st = (Next, st1)"
    "optimizeLoop E saveFlag q hashes rest st1 = (Next, final)"
    by (rule optimizeLoop_Next_Cons)
  from Cons.prems(2) have hd: "readFile (wld st) head = Some (c head)"
    "map_of hashes head = Some (sha256 E (c head))" by auto
  from optimizeImage_finalized [OF s(1) hd] obtain xs where xs:
    "sharpLog (wld st1) = sharpLog (wld st) @ xs" "set xs \<subseteq> {head}"
    "\<forall>k. isSet (assetInfo st1) k =
           (isSet (assetInfo st) k \<or> (\<exists>i\<in>set xs. k \<in> finalizedBy E saveFlag q head (c head)))"
    "\<forall>r. normalize r \<noteq> normalize head \<longrightarrow> readFile (wld st) r \<noteq> None \<longrightarrow>
           readFile (wld st1) r = readFile (wld st) r"
    by blast
  have rest1: "\<forall>img\<in>set rest. readFile (wld st1) img = Some (c img) \<and>
           map_of hashes img = Some (sha256 E (c img))"
  proof
    fix img assume i: "img \<in> set rest"
    from Cons.prems(3) have "normalize head \<notin> normalize ` set rest" by simp
    with i have "normalize img \<noteq> normalize head" by (metis imageI)
    moreover from i Cons.prems(2) have r: "readFile (wld st) img = Some (c img)"
      "map_of hashes img = Some (sha256 E (c img))" by auto
    ultimately have "readFile (wld st1) img = readFile (wld st) img" using xs(4) by simp
    with r show "readFile (wld st1) img = Some (c img) \<and>
           map_of hashes img = Some (sha256 E (c img))" by simp
  qed
  from Cons.prems(3) have "distinct (map normalize rest)" by simp
  from Cons.IH [OF s(2) rest1 this] obtain ys where ys:
    "sharpLog (wld final) = sharpLog (wld st1) @ ys" "set ys \<subseteq> set rest"
    "\<forall>k. isSet (assetInfo final) k =
           (isSet (assetInfo st1) k \<or>
            (\<exists>img\<in>set ys. k \<in> finalizedBy E saveFlag q img (c img)))"
    by blast
  have x': "\<forall>k. (\<exists>i\<in>set xs. k \<in> finalizedBy E saveFlag q head (c head)) =
      (\<exists>img\<in>set xs. k \<in> finalizedBy E saveFlag q img (c img))"
    using xs(2) by auto
  have 1: "sharpLog (wld final) = sharpLog (wld st) @ (xs @ ys)"
    using xs(1) ys(1) by simp
  have 2: "set (xs @ ys) \<subseteq> set (head # rest)"
    using xs(2) ys(2) by auto
  have 3: "\<forall>k. isSet (assetInfo final) k =
           (isSet (assetInfo st) k \<or>
            (\<exists>img\<in>set (xs @ ys). k \<in> finalizedBy E saveFlag q img (c img)))"
    using ys(3) xs(3) x' by auto
  from 1 2 3 show ?case by blast
qed

text \<open>Every entry of the state in memory has the value \<open>true\<close>.\<close>

lemma optimizeImage_all_true:
  assumes "optimizeImage E saveFlag q hashes img st = (Next, st1)"
    and "\<forall>k. map_of (assetInfo st) k \<noteq> Some False"
  shows "\<forall>k. map_of (assetInfo st1) k \<noteq> Some False"
  using assms(1)
proof (cases rule: optimizeImage_Next_cases)
  case skip
  with assms(2) show ?thesis by simp
next
  case (notImproved original)
  with assms(2) show ?thesis by (simp add: update_conv')
next
  case (improved original)
  with assms(2) show ?thesis by (simp add: update_conv')
qed

lemma optimizeLoop_all_true:
  "optimizeLoop E saveFlag q hashes imgs st = (Next, final) \<Longrightarrow>
   \<forall>k. map_of (assetInfo st) k \<noteq> Some False \<Longrightarrow>
   \<forall>k. map_of (assetInfo final) k \<noteq> Some False"
proof (induction imgs arbitrary: st)
  case Nil
  then show ?case by simp
next
  case (Cons head rest)
  from Cons.prems(1) obtain st1 where s:
    "optimizeImage E saveFlag q hashes head st = (Next, st1)"
    "optimizeLoop E saveFlag q hashes rest st1 = (Next, final)"
    by (rule optimizeLoop_Next_Cons)
  from optimizeImage_all_true [OF s(1) Cons.prems(2)]
  have "\<forall>k. map_of (assetInfo st1) k \<noteq> Some False" .
  from Cons.IH [OF s(2) this] show ?case .
qed

text \<open>
  Claim C2, as stated: after a run that completes its loop the hashes of the committed
  state are exactly the content hashes of discovered candidates that were confirmed
  optimal, because compression did not help or because the hash after compression
  was recorded. Here, with \<open>save\<close>, the only candidate \<open>/p/a.png\<close> is compressed from
  \<open>abcdef\<close> to \<open>cdef\<close>; the state that is written has \<open>#cdef\<close> and also \<open>#abcdef\<close>, the
  hash of the bytes that compression did improve, which no candidate holds, before
  the run is over or in a discovery after it.
\<close>

theorem written_state_original_hash_counterexample:
  "fst (optimizeAsync oneImageEnv unoptimizedWorld ''/p'' saveOptions) = Next \<and>
   allCandidates oneImageEnv unoptimizedWorld ''/p'' saveOptions = [''/p/a.png''] \<and>
   allCandidates oneImageEnv
     (wld (snd (optimizeAsync oneImageEnv unoptimizedWorld ''/p'' saveOptions))) ''/p'' saveOptions =
     [''/p/a.png''] \<and>
   readFile (wld (snd (optimizeAsync oneImageEnv unoptimizedWorld ''/p'' saveOptions))) ''/p/a.png'' =
     Some ''cdef'' \<and>
   totalSaved (snd (optimizeAsync oneImageEnv unoptimizedWorld ''/p'' saveOptions)) = 2 \<and>
   pendingWrite (wld (snd (optimizeAsync oneImageEnv unoptimizedWorld ''/p'' saveOptions))) =
     Some [(''#cdef'', True), (''#abcdef'', True)]"
  by (simp add: allCandidates_def eval_select eval_run eval_backup oneImageEnv_def
      unoptimizedWorld_def saveOptions_def)

text \<open>
  Claim C2, amended. After a run that completes its loop over a working set of
  distinct files that are all candidates, a write is started of a state in which
  every entry has the value \<open>true\<close> and whose hashes are exactly: the hashes set in the
  loaded state that are the content hash, at discovery, of some candidate; and, for
  each file the run compressed, the hash of the smaller bytes that replaced it, or
  the hash of its bytes when the output was no smaller, and with \<open>save\<close> also the hash
  of the original bytes of a file replaced by bytes with another hash. A hash of the
  loaded state that is not the hash of a candidate is deleted before the loop, and
  is in the written state only if the loop finalizes it again.
\<close>

theorem written_state_hashes:
  assumes "fst (optimizeAsync E w d options) = Next"
    and "set (workingFiles E w d options) \<subseteq> set (allCandidates E w d options)"
    and "distinct (map normalize (workingFiles E w d options))"
  shows "\<exists>ys. sharpLog (wld (snd (optimizeAsync E w d options))) = sharpLog w @ ys \<and>
      set ys \<subseteq> set (workingFiles E w d options) \<and>
      pendingWrite (wld (snd (optimizeAsync E w d options))) =
        Some (assetInfo (snd (optimizeAsync E w d options))) \<and>
      (\<forall>k. map_of (assetInfo (snd (optimizeAsync E w d options))) k =
         (if (isSet (snd (readAssetJsonAsync w)) k \<and>
              k \<in> contentHash E w ` set (allCandidates E w d options)) \<or>
             (\<exists>img\<in>set ys. k \<in> finalizedBy E (truthyBool (save options)) (qualityOf options)
                                   img (the (readFile w img)))
          then Some True else None))"
proof -
  have readable: "\<forall>f\<in>set (allCandidates E w d options). readFile w f \<noteq> None"
  proof (rule ccontr)
    assume "\<not> (\<forall>f\<in>set (allCandidates E w d options). readFile w f \<noteq> None)"
    then have "\<exists>f\<in>set (allCandidates E w d options). readFile w f = None" by simp
    from optimizeAsync_unreadable [OF this] assms(1) show False by simp
  qed
  from optimizeAsync_unfold [OF readable] obtain hs a1 where u:
    "\<forall>g. map_of hs g =
        (if g \<in> set (allCandidates E w d options) then Some (contentHash E w g) else None)"
    "\<forall>k. map_of a1 k =
        (if isSet (snd (readAssetJsonAsync w)) k \<and>
            k \<in> contentHash E w ` set (allCandidates E w d options)
         then Some True else None)"
    "optimizeAsync E w d options =
       writeAfterLoop
         (optimizeLoop E (truthyBool (save options)) (qualityOf options) hs
            (workingFiles E w d options)
            \<lparr>wld = fst (readAssetJsonAsync w), assetInfo = a1, totalSaved = 0\<rparr>)"
    by blast
  let ?st0 = "\<lparr>wld = fst (readAssetJsonAsync w), assetInfo = a1, totalSaved = 0\<rparr>"
  let ?c = "\<lambda>img. the (readFile w img)"
  obtain c st where L0:
    "optimizeLoop E (truthyBool (save options)) (qualityOf options) hs
            (workingFiles E w d options) ?st0 = (c, st)"
    by (cases "optimizeLoop E (truthyBool (save options)) (qualityOf options) hs
            (workingFiles E w d options) ?st0")
  have "c = Next" using assms(1) unfolding u(3) L0 by (simp add: writeAfterLoop_fields)
  with L0 have L:
    "optimizeLoop E (truthyBool (save options)) (qualityOf options) hs
            (workingFiles E w d options) ?st0 = (Next, st)" by simp
  have res: "optimizeAsync E w d options =
      (Next, st\<lparr>wld := (wld st)\<lparr>pendingWrite := Some (assetInfo st)\<rparr>\<rparr>)"
    unfolding u(3) L by (simp add: writeAfterLoop_simps)
  have start: "\<forall>img\<in>set (workingFiles E w d options).
      readFile (wld ?st0) img = Some (?c img) \<and> map_of hs img = Some (sha256 E (?c img))"
  proof
    fix img assume "img \<in> set (workingFiles E w d options)"
    with assms(2) have c: "img \<in> set (allCandidates E w d options)" by auto
    with readable obtain b where b: "readFile w img = Some b" by auto
    with c u(1) show "readFile (wld ?st0) img = Some (?c img) \<and>
        map_of hs img = Some (sha256 E (?c img))"
      by (simp add: readAssetJsonAsync_world contentHash_def)
  qed
  from optimizeLoop_finalized [OF L start assms(3)] obtain ys where ys:
    "sharpLog (wld st) = sharpLog (wld ?st0) @ ys"
    "set ys \<subseteq> set (workingFiles E w d options)"
    "\<forall>k. isSet (assetInfo st) k =
           (isSet (assetInfo ?st0) k \<or>
            (\<exists>img\<in>set ys. k \<in> finalizedBy E (truthyBool (save options)) (qualityOf options)
                                  img (?c img)))"
    by blast
  have "\<forall>k. map_of (assetInfo ?st0) k \<noteq> Some False" using u(2) by simp
  from optimizeLoop_all_true [OF L this]
  have true: "\<forall>k. map_of (assetInfo st) k \<noteq> Some False" .
  have set0: "\<forall>k. isSet (assetInfo ?st0) k =
      (isSet (snd (readAssetJsonAsync w)) k \<and>
       k \<in> contentHash E w ` set (allCandidates E w d options))"
    using u(2) by (simp add: isSet_def)
  have m: "\<forall>k. map_of (assetInfo st) k =
         (if (isSet (snd (readAssetJsonAsync w)) k \<and>
              k \<in> contentHash E w ` set (allCandidates E w d options)) \<or>
             (\<exists>img\<in>set ys. k \<in> finalizedBy E (truthyBool (save options)) (qualityOf options)
                                   img (?c img))
          then Some True else None)"
  proof
    fix k
    show "map_of (assetInfo st) k =
         (if (isSet (snd (readAssetJsonAsync w)) k \<and>
              k \<in> contentHash E w ` set (allCandidates E w d options)) \<or>
             (\<exists>img\<in>set ys. k \<in> finalizedBy E (truthyBool (save options)) (qualityOf options)
                                   img (?c img))
          then Some True else None)"
    proof (cases "isSet (assetInfo st) k")
      case True
      with ys(3) set0 show ?thesis by (simp add: isSet_def)
    next
      case False
      then have "map_of (assetInfo st) k \<noteq> Some True" by (simp add: isSet_def)
      with true have "map_of (assetInfo st) k = None"
        by (cases "map_of (assetInfo st) k") auto
      with False ys(3) set0 show ?thesis by simp
    qed
  qed
  have "sharpLog (wld (snd (optimizeAsync E w d options))) = sharpLog w @ ys \<and>
      set ys \<subseteq> set (workingFiles E w d options) \<and>
      pendingWrite (wld (snd (optimizeAsync E w d options))) =
        Some (assetInfo (snd (optimizeAsync E w d options))) \<and>
      (\<forall>k. map_of (assetInfo (snd (optimizeAsync E w d options))) k =
         (if (isSet (snd (readAssetJsonAsync w)) k \<and>
              k \<in> contentHash E w ` set (allCandidates E w d options)) \<or>
             (\<exists>img\<in>set ys. k \<in> finalizedBy E (truthyBool (save options)) (qualityOf options)
                                   img (the (readFile w img)))
          then Some True else None))"
    using ys(1,2) m by (simp add: res readAssetJsonAsync_world)
  then show ?thesis by blast
qed

theorem written_state_hashes_witness:
  "fst (optimizeAsync finishEnv abortWorld ''/p'' noOptions) = Next \<and>
   set (workingFiles finishEnv abortWorld ''/p'' noOptions)
     \<subseteq> set (allCandidates finishEnv abortWorld ''/p'' noOptions) \<and>
   distinct (map normalize (workingFiles finishEnv abortWorld ''/p'' noOptions)) \<and>
   (\<exists>ys. sharpLog (wld (snd (optimizeAsync finishEnv abortWorld ''/p'' noOptions))) =
            sharpLog abortWorld @ ys \<and>
      set ys \<subseteq> set (workingFiles finishEnv abortWorld ''/p'' noOptions) \<and>
      pendingWrite (wld (snd (optimizeAsync finishEnv abortWorld ''/p'' noOptions))) =
        Some (assetInfo (snd (optimizeAsync finishEnv abortWorld ''/p'' noOptions))) \<and>
      (\<forall>k. map_of (assetInfo (snd (optimizeAsync finishEnv abortWorld ''/p'' noOptions))) k =
         (if (isSet (snd (readAssetJsonAsync abortWorld)) k \<and>
              k \<in> contentHash finishEnv abortWorld `
                    set (allCandidates finishEnv abortWorld ''/p'' noOptions)) \<or>
             (\<exists>img\<in>set ys. k \<in> finalizedBy finishEnv (truthyBool (save noOptions))
                                   (qualityOf noOptions) img (the (readFile abortWorld img)))
          then Some True else None))) \<and>
   snd (readAssetJsonAsync abortWorld) = [(''#gone'', True)] \<and>
   sharpLog (wld (snd (optimizeAsync finishEnv abortWorld ''/p'' noOptions))) =
     [''/p/a.png'', ''/p/b.png''] \<and>
   pendingWrite (wld (snd (optimizeAsync finishEnv abortWorld ''/p'' noOptions))) =
     Some [(''#aaaa'', True), (''#bbbb'', True)]"
proof -
  have n: "fst (optimizeAsync finishEnv abortWorld ''/p'' noOptions) = Next"
    by (simp add: eval_run eval_select finishEnv_def abortEnv_def abortWorld_def)
  have wf: "workingFiles finishEnv abortWorld ''/p'' noOptions = [''/p/a.png'', ''/p/b.png'']"
    by (simp add: workingFiles_def workingSet_def eval_select finishEnv_def abortEnv_def)
  have ac: "allCandidates finishEnv abortWorld ''/p'' noOptions = [''/p/a.png'', ''/p/b.png'']"
    by (simp add: allCandidates_def eval_select finishEnv_def abortEnv_def)
  have sub: "set (workingFiles finishEnv abortWorld ''/p'' noOptions)
     \<subseteq> set (allCandidates finishEnv abortWorld ''/p'' noOptions)"
    by (simp add: wf ac)
  have dist: "distinct (map normalize (workingFiles finishEnv abortWorld ''/p'' noOptions))"
    by (simp add: wf) (simp add: normalize_def isSlash_def Let_def)
  note t = written_state_hashes [OF n sub dist]
  have ld: "snd (readAssetJsonAsync abortWorld) = [(''#gone'', True)]"
    by (simp add: readAssetJsonAsync_loaded abortWorld_def)
  have lg: "sharpLog (wld (snd (optimizeAsync finishEnv abortWorld ''/p'' noOptions))) =
     [''/p/a.png'', ''/p/b.png'']"
    by (simp add: eval_run eval_select finishEnv_def abortEnv_def abortWorld_def)
  have pw: "pendingWrite (wld (snd (optimizeAsync finishEnv abortWorld ''/p'' noOptions))) =
     Some [(''#aaaa'', True), (''#bbbb'', True)]"
    by (simp add: eval_run eval_select finishEnv_def abortEnv_def abortWorld_def)
  from n sub dist t ld lg pw show ?thesis by (intro conjI)
qed

end
